theory Spec2Isabelle
  imports Main "HOL-Library.Word"
begin

section \<open>The MPI wrapper module \<^verbatim>\<open>mpi_lib.c\<close>\<close>

text \<open>
  The module keeps its topology and the task partition in file-level \<^verbatim>\<open>static size_t\<close>
  variables. They are modelled as a record of 64-bit words (\<^verbatim>\<open>size_t\<close> on an LP64
  target), one record per process. Arithmetic on them wraps modulo \<open>2 ^ 64\<close>, as
  unsigned arithmetic does in C.
\<close>

type_synonym size_t = "64 word"

record globals =
  this_rank :: size_t
  comm_size :: size_t
  thread_level :: size_t
  chunk_size :: size_t
  tasks :: size_t
  extra_tasks :: size_t
  last_rank_index :: size_t

text \<open>The initialisers of the static variables (lines 31 and 32).\<close>

definition static_init :: globals where
  "static_init =
     \<lparr>this_rank = 0, comm_size = 1, thread_level = 0,
      chunk_size = 1, tasks = 1, extra_tasks = 0, last_rank_index = 0\<rparr>"

text \<open>
  The ways a call can fail to return: a failed \<^verbatim>\<open>ASSERT\<close>, \<^verbatim>\<open>exit(EXIT_FAILURE)\<close>
  after a diagnostic written by \<^verbatim>\<open>PRINT_ERROR\<close> (the arguments of the diagnostic
  are kept), a blocking receive with nothing to receive, an integer division by zero,
  an access outside a buffer or through a null pointer, a signed overflow, and a
  negative element count given to the message-passing library.
\<close>

datatype diagnostic =
    Invalid_type char
  | Backend_failed size_t string int
  | Routine_failed string int

datatype halt =
    Assertion_failed
  | Exit_failure diagnostic
  | Blocked
  | Division_by_zero
  | Invalid_access
  | Signed_overflow
  | Invalid_count

text \<open>
  \<^verbatim>\<open>mpi_init\<close> stores what \<^verbatim>\<open>MPI_Comm_rank\<close> and \<^verbatim>\<open>MPI_Comm_size\<close> report. The
  globals of process \<open>rank\<close> of a communicator of \<open>n_procs\<close> processes are therefore the
  initial ones with these two fields set.
\<close>

definition rank_globals :: "size_t \<Rightarrow> size_t \<Rightarrow> globals" where
  "rank_globals n_procs rank = static_init\<lparr>this_rank := rank, comm_size := n_procs\<rparr>"

definition mpi_rank :: "globals \<Rightarrow> size_t" where
  "mpi_rank g = this_rank g"

definition mpi_comm_size :: "globals \<Rightarrow> size_t" where
  "mpi_comm_size g = comm_size g"

subsection \<open>Task partitioner\<close>

text \<open>
  \<^verbatim>\<open>mpi_set_tasks\<close>: the four assignments in source order, each using the fields
  assigned before it. The division traps when the communicator size is zero.
\<close>

definition mpi_set_tasks :: "size_t \<Rightarrow> globals \<Rightarrow> halt + globals" where
  "mpi_set_tasks max_task g =
     (if \<not> max_task > 0 then Inl Assertion_failed
      else if comm_size g = 0 then Inl Division_by_zero
      else
        let g1 = g\<lparr>tasks := max_task\<rparr>;
            g2 = g1\<lparr>chunk_size := max_task div comm_size g1\<rparr>;
            g3 = g2\<lparr>last_rank_index :=
                       (comm_size g2 - 1) * chunk_size g2 + (chunk_size g2 - 1)\<rparr>;
            g4 = g3\<lparr>extra_tasks := (max_task - 1) - last_rank_index g3\<rparr>
        in Inr g4)"

definition mpi_first_task :: "globals \<Rightarrow> size_t" where
  "mpi_first_task g = this_rank g * chunk_size g"

definition mpi_last_task :: "globals \<Rightarrow> size_t" where
  "mpi_last_task g = this_rank g * chunk_size g + (chunk_size g - 1)"

definition mpi_extra_task :: "globals \<Rightarrow> size_t" where
  "mpi_extra_task g =
     (let index = (if extra_tasks g > 0 then last_rank_index g + this_rank g + 1 else 0)
      in if index < tasks g then index else 0)"

text \<open>
  The callers' view of the partition. The main chunk of a process is the range of
  indices from \<^verbatim>\<open>mpi_first_task()\<close> to \<^verbatim>\<open>mpi_last_task()\<close>, both included (the last
  one is \<open>first + chunk_size - 1\<close>). A process has an extra task when
  \<^verbatim>\<open>mpi_extra_task\<close> returns its computed index rather than the sentinel: the pool is
  not empty and the index is below the number of tasks.
\<close>

definition in_main_chunk :: "globals \<Rightarrow> size_t \<Rightarrow> bool" where
  "in_main_chunk g n = (mpi_first_task g \<le> n \<and> n \<le> mpi_last_task g)"

definition has_extra_task :: "globals \<Rightarrow> bool" where
  "has_extra_task g =
     (extra_tasks g > 0 \<and> last_rank_index g + this_rank g + 1 < tasks g)"

definition owns_task :: "globals \<Rightarrow> size_t \<Rightarrow> bool" where
  "owns_task g n = (in_main_chunk g n \<or> has_extra_task g \<and> mpi_extra_task g = n)"

subsection \<open>The message-passing substrate\<close>

text \<open>
  Modelled from the spec: the message-passing library behind \<^verbatim>\<open>MPI_Send\<close>,
  \<^verbatim>\<open>MPI_Recv\<close> and \<^verbatim>\<open>MPI_Iprobe\<close>, which is not part of the repository. The spec
  gives it private channels between one source and one destination rank, received in
  the order sent, a length header on a control channel (tag 666 in the source) and a
  typed payload on a data channel (tag 667); a receive of \<open>m\<close> elements reads exactly
  \<open>m\<close> elements and leaves the rest of a longer payload unread. A channel is the list of
  packets in flight from a source to a destination, oldest first. A packet is either a
  header (one count) or a payload (the elements, with the MPI datatype they were sent
  as); a receive on a tag takes the oldest packet of that kind.

  A header is one \<^verbatim>\<open>MPI_UNSIGNED\<close>, a 32-bit word. The element count of a payload
  is an \<^verbatim>\<open>int\<close> parameter of the library; the spec says nothing of a negative count,
  which the library refuses: the process stops (\<open>Invalid_count\<close>).
\<close>

datatype mpi_datatype = MPI_INT | MPI_CHAR | MPI_FLOAT | MPI_DOUBLE

datatype 'a packet = Header "32 word" | Payload mpi_datatype "'a list"

type_synonym 'a network = "size_t \<times> size_t \<Rightarrow> 'a packet list"

fun is_header :: "'a packet \<Rightarrow> bool" where
  "is_header (Header k) = True"
| "is_header (Payload t xs) = False"

fun take_header :: "'a packet list \<Rightarrow> (32 word \<times> 'a packet list) option" where
  "take_header [] = None"
| "take_header (Header k # q) = Some (k, q)"
| "take_header (Payload t xs # q) =
     (case take_header q of None \<Rightarrow> None | Some (k, q') \<Rightarrow> Some (k, Payload t xs # q'))"

fun take_payload :: "nat \<Rightarrow> 'a packet list \<Rightarrow> ('a list \<times> 'a packet list) option" where
  "take_payload m [] = None"
| "take_payload m (Payload t xs # q) =
     Some (take m xs, if m < length xs then Payload t (drop m xs) # q else q)"
| "take_payload m (Header k # q) =
     (case take_payload m q of None \<Rightarrow> None | Some (xs, q') \<Rightarrow> Some (xs, Header k # q'))"

definition MPI_Send :: "size_t \<Rightarrow> size_t \<Rightarrow> 'a packet \<Rightarrow> 'a network \<Rightarrow> 'a network" where
  "MPI_Send source dest p net = net((source, dest) := net (source, dest) @ [p])"

definition MPI_Iprobe :: "size_t \<Rightarrow> size_t \<Rightarrow> 'a network \<Rightarrow> bool" where
  "MPI_Iprobe source dest net = list_ex is_header (net (source, dest))"

definition MPI_Recv_header ::
  "size_t \<Rightarrow> size_t \<Rightarrow> 'a network \<Rightarrow> (32 word \<times> 'a network) option"
where
  "MPI_Recv_header source dest net =
     (case take_header (net (source, dest)) of
        None \<Rightarrow> None
      | Some (k, q) \<Rightarrow> Some (k, net((source, dest) := q)))"

definition MPI_Recv :: "nat \<Rightarrow> size_t \<Rightarrow> size_t \<Rightarrow> 'a network \<Rightarrow> ('a list \<times> 'a network) option" where
  "MPI_Recv m source dest net =
     (case take_payload m (net (source, dest)) of
        None \<Rightarrow> None
      | Some (xs, q) \<Rightarrow> Some (xs, net((source, dest) := q)))"

subsection \<open>Typed messaging: \<^verbatim>\<open>mpi_inbox\<close>, \<^verbatim>\<open>mpi_send\<close>, \<^verbatim>\<open>mpi_receive\<close>\<close>

text \<open>
  The first argument says whether the macro \<^verbatim>\<open>USE_MPI\<close> was defined at compilation.
  Without it the three functions check their assertions and do nothing else. A buffer
  is the list of its elements, so the assertion \<^verbatim>\<open>data != NULL\<close> holds by typing; a
  call that would read or write more elements than the buffer has is an invalid
  access. Each function returns the network as it leaves it, also when it halts.

  The count \<open>n\<close> is a \<^verbatim>\<open>size_t\<close> and reaches the library in two ways. As the header,
  the library is given the address of the count and reads one \<^verbatim>\<open>unsigned\<close> there: on
  a little-endian LP64 target, which is the layout taken here, these four bytes are the
  low 32 bits of the count. As the element count of the payload, it is converted to the
  \<^verbatim>\<open>int\<close> parameter: the low 32 bits, read in two's complement. The receiver sets its
  \<^verbatim>\<open>size_t m\<close> to 0 and lets the library store the header in its first four bytes, so
  \<open>m\<close> is the header as a 64-bit number; \<open>min(n, m)\<close> is then converted to \<^verbatim>\<open>int\<close> in
  the same way.
\<close>

definition int_of_size_t :: "size_t \<Rightarrow> int" where
  "int_of_size_t n = sint (ucast n :: 32 word)"

definition unsigned_at :: "size_t \<Rightarrow> 32 word" where
  "unsigned_at n = ucast n"

definition size_t_of_unsigned :: "32 word \<Rightarrow> size_t" where
  "size_t_of_unsigned k = ucast k"

definition mpi_inbox :: "bool \<Rightarrow> globals \<Rightarrow> size_t \<Rightarrow> 'a network \<Rightarrow> halt + bool" where
  "mpi_inbox USE_MPI g from net =
     (if \<not> from < comm_size g then Inl Assertion_failed
      else if USE_MPI then Inr (MPI_Iprobe from (this_rank g) net)
      else Inr False)"

text \<open>
  The payload send of one \<^verbatim>\<open>case\<close> of the \<^verbatim>\<open>switch\<close>,
  \<^verbatim>\<open>MPI_Send(data, n, MPI_INT, to, 667, MPI_COMM_WORLD)\<close>: \<open>count\<close> elements of the
  buffer, \<open>count\<close> being the \<^verbatim>\<open>int\<close> that the library is given.
\<close>

definition send_elements ::
  "size_t \<Rightarrow> size_t \<Rightarrow> mpi_datatype \<Rightarrow> int \<Rightarrow> 'a list \<Rightarrow> 'a network \<Rightarrow> 'a network \<times> (halt + unit)"
where
  "send_elements source dest t count data net =
     (if count < 0 then (net, Inl Invalid_count)
      else if length data < nat count then (net, Inl Invalid_access)
      else (MPI_Send source dest (Payload t (take (nat count) data)) net, Inr ()))"

definition mpi_send ::
  "bool \<Rightarrow> globals \<Rightarrow> size_t \<Rightarrow> size_t \<Rightarrow> char \<Rightarrow> 'a list \<Rightarrow> 'a network
     \<Rightarrow> 'a network \<times> (halt + unit)"
where
  "mpi_send USE_MPI g to n type data net =
     (if \<not> n > 0 then (net, Inl Assertion_failed)
      else if \<not> to < comm_size g then (net, Inl Assertion_failed)
      else if \<not> USE_MPI then (net, Inr ())
      else
        let net1 = MPI_Send (this_rank g) to (Header (unsigned_at n)) net;
            count = int_of_size_t n
        in if type = CHR ''i'' then send_elements (this_rank g) to MPI_INT count data net1
           else if type = CHR ''c'' then send_elements (this_rank g) to MPI_CHAR count data net1
           else if type = CHR ''f'' then send_elements (this_rank g) to MPI_FLOAT count data net1
           else if type = CHR ''d'' then send_elements (this_rank g) to MPI_DOUBLE count data net1
           else (net1, Inl (Exit_failure (Invalid_type type))))"

text \<open>
  The payload receive of one \<^verbatim>\<open>case\<close>,
  \<^verbatim>\<open>MPI_Recv(data, m, MPI_INT, from, 667, MPI_COMM_WORLD, MPI_STATUS_IGNORE)\<close>: at most
  \<open>count\<close> elements, stored from the start of the buffer; the rest of the buffer keeps
  its content.
\<close>

definition receive_elements ::
  "size_t \<Rightarrow> size_t \<Rightarrow> mpi_datatype \<Rightarrow> int \<Rightarrow> 'a list \<Rightarrow> 'a network
     \<Rightarrow> 'a network \<times> (halt + 'a list)"
where
  "receive_elements source dest t count data net =
     (if count < 0 then (net, Inl Invalid_count)
      else
        case MPI_Recv (nat count) source dest net of
          None \<Rightarrow> (net, Inl Blocked)
        | Some (xs, net') \<Rightarrow>
            if length data < length xs then (net', Inl Invalid_access)
            else (net', Inr (xs @ drop (length xs) data)))"

definition mpi_receive ::
  "bool \<Rightarrow> globals \<Rightarrow> size_t \<Rightarrow> size_t \<Rightarrow> char \<Rightarrow> 'a list \<Rightarrow> 'a network
     \<Rightarrow> 'a network \<times> (halt + 'a list)"
where
  "mpi_receive USE_MPI g from n type data net =
     (if \<not> n > 0 then (net, Inl Assertion_failed)
      else if \<not> from < comm_size g then (net, Inl Assertion_failed)
      else if \<not> USE_MPI then (net, Inr data)
      else
        case MPI_Recv_header from (this_rank g) net of
          None \<Rightarrow> (net, Inl Blocked)
        | Some (k, net1) \<Rightarrow>
            let m = min n (size_t_of_unsigned k);
                count = int_of_size_t m
            in if type = CHR ''i'' then receive_elements from (this_rank g) MPI_INT count data net1
               else if type = CHR ''c'' then receive_elements from (this_rank g) MPI_CHAR count data net1
               else if type = CHR ''f'' then receive_elements from (this_rank g) MPI_FLOAT count data net1
               else if type = CHR ''d'' then receive_elements from (this_rank g) MPI_DOUBLE count data net1
               else (net1, Inl (Exit_failure (Invalid_type type))))"

text \<open>The network with nothing in flight.\<close>

definition no_messages :: "'a network" where
  "no_messages = (\<lambda>channel. [])"

text \<open>The element types that the two \<^verbatim>\<open>switch\<close> statements accept.\<close>

definition supported_type :: "char \<Rightarrow> bool" where
  "supported_type type =
     (type = CHR ''i'' \<or> type = CHR ''c'' \<or> type = CHR ''f'' \<or> type = CHR ''d'')"

text \<open>The datatype that the \<^verbatim>\<open>switch\<close> selects for a supported type.\<close>

definition datatype_of :: "char \<Rightarrow> mpi_datatype" where
  "datatype_of ty =
     (if ty = CHR ''i'' then MPI_INT else if ty = CHR ''c'' then MPI_CHAR
      else if ty = CHR ''f'' then MPI_FLOAT else MPI_DOUBLE)"

subsection \<open>Backend error check\<close>

text \<open>
  \<^verbatim>\<open>CHECK_PETSC_ERROR(name, code, stop)\<close>: a non-zero code is reported with the rank,
  the name of the call and the code; the process exits when \<open>stop\<close> is set and goes on
  otherwise.
\<close>

definition CHECK_PETSC_ERROR :: "globals \<Rightarrow> string \<Rightarrow> int \<Rightarrow> bool \<Rightarrow> halt + unit" where
  "CHECK_PETSC_ERROR g name code stop =
     (if code \<noteq> 0 \<and> stop then Inl (Exit_failure (Backend_failed (this_rank g) name code))
      else Inr ())"

subsection \<open>Dense matrices (module \<^verbatim>\<open>matrix\<close>)\<close>

text \<open>
  \<^verbatim>\<open>struct matrix\<close>: a row-major buffer and its shape. \<^verbatim>\<open>DATA_OFFSET(m, p, q)\<close> is the
  element at \<open>p * max_col + q\<close>, computed in \<^verbatim>\<open>size_t\<close>. The two index assertions of
  \<^verbatim>\<open>matrix_set\<close> exist only when \<^verbatim>\<open>MATRIX_BOUND_CHECK\<close> is defined, which is the first
  argument here. A store outside the buffer is an invalid access.
\<close>

record 'a matrix =
  data :: "'a list"
  max_row :: size_t
  max_col :: size_t
  use_omp :: size_t

definition matrix_set ::
  "bool \<Rightarrow> 'a matrix \<Rightarrow> size_t \<Rightarrow> size_t \<Rightarrow> 'a \<Rightarrow> halt + 'a matrix"
where
  "matrix_set MATRIX_BOUND_CHECK m p q x =
     (if MATRIX_BOUND_CHECK \<and> \<not> p < max_row m then Inl Assertion_failed
      else if MATRIX_BOUND_CHECK \<and> \<not> q < max_col m then Inl Assertion_failed
      else
        let offset = p * max_col m + q
        in if unat offset < length (data m)
           then Inr (m\<lparr>data := (data m)[unat offset := x]\<rparr>)
           else Inl Invalid_access)"

definition matrix_get :: "bool \<Rightarrow> 'a matrix \<Rightarrow> size_t \<Rightarrow> size_t \<Rightarrow> halt + 'a" where
  "matrix_get MATRIX_BOUND_CHECK m p q =
     (if MATRIX_BOUND_CHECK \<and> \<not> p < max_row m then Inl Assertion_failed
      else if MATRIX_BOUND_CHECK \<and> \<not> q < max_col m then Inl Assertion_failed
      else
        let offset = p * max_col m + q
        in if unat offset < length (data m) then Inr (data m ! unat offset)
           else Inl Invalid_access)"

definition matrix_rows :: "'a matrix \<Rightarrow> size_t" where
  "matrix_rows m = max_row m"

text \<open>
  The wrapper \<^verbatim>\<open>call_dsyev(jobz, uplo, n, a, lda, w)\<close> is compiled for one linear
  algebra library: MAGMA with \<^verbatim>\<open>USE_MAGMA\<close>, LAPACKE with \<^verbatim>\<open>USE_MKL\<close> or
  \<^verbatim>\<open>USE_LAPACKE\<close>, and GSL otherwise. The routines of the library are outside the
  repository; the constructor of the build carries them.

  \<^item> MAGMA: \<^verbatim>\<open>magma_get_dsytrd_nb(n)\<close> gives the block size, and
    \<^verbatim>\<open>magma_dsyevd_gpu\<close>, from the job mode, the fill mode, the order, the matrix
    copied to the device and its leading dimension, gives the error code, the device
    matrix as the routine leaves it, the eigenvalues, and the host buffer \<open>a\<close>, which
    the routine is given as workspace.
  \<^item> LAPACKE: \<^verbatim>\<open>LAPACKE_dsyev\<close>, from \<open>jobz\<close>, \<open>uplo\<close>, the order, the buffer and its
    leading dimension, gives the error code, the buffer as the routine leaves it and the
    eigenvalues.
  \<^item> GSL: \<^verbatim>\<open>gsl_eigen_symmv\<close>, from the order and the buffer, gives the buffer as the
    routine leaves it, the eigenvalues and the eigenvectors; \<^verbatim>\<open>gsl_eigen_symmv_sort\<close>
    reorders eigenvalues and eigenvectors by ascending eigenvalue.

  The sizes of the MAGMA workspaces are computed in \<^verbatim>\<open>int\<close> (\<^verbatim>\<open>magma_int_t\<close> is
  \<^verbatim>\<open>int\<close>), expression by expression as in the source; \<open>fits_int\<close> is the range of
  \<^verbatim>\<open>int\<close>. A non-zero error code is reported by \<^verbatim>\<open>PRINT_ERROR\<close> with the name of the
  routine and the code, and the process exits.
\<close>

datatype magma_vec_t = MagmaNoVec | MagmaVec

datatype magma_uplo_t = MagmaUpper | MagmaLower

datatype 'a linear_algebra_lib =
    MAGMA "int \<Rightarrow> int"
          "magma_vec_t \<Rightarrow> magma_uplo_t \<Rightarrow> int \<Rightarrow> 'a list \<Rightarrow> int
             \<Rightarrow> int \<times> 'a list \<times> 'a list \<times> 'a list"
  | LAPACKE "char \<Rightarrow> char \<Rightarrow> int \<Rightarrow> 'a list \<Rightarrow> int \<Rightarrow> int \<times> 'a list \<times> 'a list"
  | GSL "int \<Rightarrow> 'a list \<Rightarrow> 'a list \<times> 'a list \<times> 'a list"
        "'a list \<Rightarrow> 'a list \<Rightarrow> 'a list \<times> 'a list"

definition fits_int :: "int \<Rightarrow> bool" where
  "fits_int x = (- 2147483648 \<le> x \<and> x \<le> 2147483647)"

fun call_dsyev ::
  "'a linear_algebra_lib \<Rightarrow> char \<Rightarrow> char \<Rightarrow> int \<Rightarrow> 'a list \<Rightarrow> int
     \<Rightarrow> halt + 'a list \<times> 'a list"
where
  "call_dsyev (MAGMA magma_get_dsytrd_nb magma_dsyevd_gpu) jobz uplo n a lda =
     (let job_mode = (if jobz = CHR ''n'' then MagmaNoVec else MagmaVec);
          fill_mode = (if uplo = CHR ''u'' then MagmaUpper else MagmaLower);
          nb = magma_get_dsytrd_nb n
      in if \<not> list_all fits_int
                (if jobz = CHR ''n'' then [2 * n, n * nb, 2 * n + n * nb, n * n]
                 else [2 * n, n * nb, 2 * n + n * nb, 6 * n, 1 + 6 * n, 2 * n * n,
                       1 + 6 * n + 2 * n * n, 5 * n, 3 + 5 * n, n * n])
         then Inl Signed_overflow
         else
           case magma_dsyevd_gpu job_mode fill_mode n a lda of
             (info, a_gpu, w, work) \<Rightarrow>
               if info \<noteq> 0
               then Inl (Exit_failure (Routine_failed ''magma_dsyevd_gpu()'' info))
               else Inr (if jobz \<noteq> CHR ''n'' then a_gpu else work, w))"
| "call_dsyev (LAPACKE LAPACKE_dsyev) jobz uplo n a lda =
     (case LAPACKE_dsyev jobz uplo n a lda of
        (info, a', w) \<Rightarrow>
          if info \<noteq> 0 then Inl (Exit_failure (Routine_failed ''LAPACKE_dsyev()'' info))
          else Inr (a', w))"
| "call_dsyev (GSL gsl_eigen_symmv gsl_eigen_symmv_sort) jobz uplo n a lda =
     (if \<not> n > 0 then Inl Assertion_failed
      else if \<not> lda \<le> n then Inl Assertion_failed
      else if \<not> uplo = CHR ''l'' then Inl Assertion_failed
      else if \<not> (jobz = CHR ''n'' \<or> jobz = CHR ''v'') then Inl Assertion_failed
      else
        case gsl_eigen_symmv n a of
          (a', w, eigenvec) \<Rightarrow>
            (case gsl_eigen_symmv_sort w eigenvec of
               (w', eigenvec') \<Rightarrow> Inr (if jobz = CHR ''v'' then eigenvec' else a', w')))"

text \<open>
  \<^verbatim>\<open>matrix_symm_eigen\<close> calls \<^verbatim>\<open>call_dsyev(job, 'l', max_row, data, max_row, eigenval)\<close>:
  the row count, a \<^verbatim>\<open>size_t\<close>, is converted to the two \<^verbatim>\<open>int\<close> parameters. It returns
  the eigenvalues; the buffer of the matrix is what the wrapper leaves there.
\<close>

definition matrix_symm_eigen ::
  "'a linear_algebra_lib \<Rightarrow> 'a matrix \<Rightarrow> char \<Rightarrow> halt + 'a matrix \<times> 'a list"
where
  "matrix_symm_eigen lib m job =
     (case call_dsyev lib job (CHR ''l'') (int_of_size_t (max_row m)) (data m)
             (int_of_size_t (max_row m)) of
        Inl e \<Rightarrow> Inl e
      | Inr (a, eigenval) \<Rightarrow> Inr (m\<lparr>data := a\<rparr>, eigenval))"

subsection \<open>Matrix handles\<close>

text \<open>
  \<^verbatim>\<open>struct mpi_matrix\<close> has two layouts, chosen at compilation. With \<^verbatim>\<open>USE_PETSC\<close> it
  holds the backend's matrix object, the shape, the ownership range \<open>[first, last)\<close> of
  this process and, with \<^verbatim>\<open>USE_SLEPC\<close>, the eigensolver object. Without it, it holds a
  dense matrix and the eigenvalues. The handle is a datatype with one constructor for
  each layout, so each function has one equation for each build. The backend's matrix
  type \<open>'mat\<close> is left open; the eigensolver object is the list of the calls made on it.

  A \<^verbatim>\<open>double\<close> argument is a NaN or a number, and the comparison \<open>x == x\<close> holds of
  every \<^verbatim>\<open>double\<close> but a NaN; the type of the numbers is left open.
\<close>

datatype 'a double = NaN | Number 'a

datatype eps_problem = EPS_HEP

datatype eps_which = EPS_LARGEST_REAL | EPS_SMALLEST_REAL

datatype eps_type = EPSKRYLOVSCHUR

datatype 'a eps_call =
    EPSCreate
  | EPSSetOperators
  | EPSSetDimensions int int
  | EPSSetProblemType eps_problem
  | EPSSetWhichEigenpairs eps_which
  | EPSSetType eps_type
  | EPSSetTolerances "'a double" int
  | EPSSolve
  | EPSGetConverged

fun eps_name :: "'a eps_call \<Rightarrow> string" where
  "eps_name EPSCreate = ''EPSCreate()''"
| "eps_name EPSSetOperators = ''EPSSetOperators()''"
| "eps_name (EPSSetDimensions nev ncv) = ''EPSSetDimensions()''"
| "eps_name (EPSSetProblemType p) = ''EPSSetProblemType()''"
| "eps_name (EPSSetWhichEigenpairs w) = ''EPSSetWhichEigenpairs()''"
| "eps_name (EPSSetType t) = ''EPSSetType()''"
| "eps_name (EPSSetTolerances tol max_it) = ''EPSSetTolerances()''"
| "eps_name EPSSolve = ''EPSSolve()''"
| "eps_name EPSGetConverged = ''EPSGetConverged()''"

record ('mat, 'a) mpi_matrix_petsc =
  pm_data :: 'mat
  pm_max_row :: int
  pm_max_col :: int
  pm_first :: int
  pm_last :: int
  pm_solver :: "'a eps_call list"

record 'a mpi_matrix_local =
  lm_data :: "'a matrix"
  lm_eigenval :: "'a list option"

datatype ('mat, 'a) mpi_matrix =
    Petsc_matrix "('mat, 'a) mpi_matrix_petsc"
  | Local_matrix "'a mpi_matrix_local"

text \<open>
  \<^verbatim>\<open>mpi_matrix_set\<close>. The backend call \<^verbatim>\<open>MatSetValue(data, p, q, x, INSERT_VALUES)\<close> is a
  parameter giving the error code and the new matrix object. In the dense build the
  \<^verbatim>\<open>int\<close> indices are converted to \<^verbatim>\<open>size_t\<close> for \<^verbatim>\<open>matrix_set\<close>.
\<close>

fun mpi_matrix_set ::
  "('mat \<Rightarrow> int \<Rightarrow> int \<Rightarrow> 'a \<Rightarrow> int \<times> 'mat) \<Rightarrow> bool \<Rightarrow> globals
     \<Rightarrow> ('mat, 'a) mpi_matrix \<Rightarrow> int \<Rightarrow> int \<Rightarrow> 'a \<Rightarrow> halt + ('mat, 'a) mpi_matrix"
where
  "mpi_matrix_set MatSetValue MATRIX_BOUND_CHECK g (Petsc_matrix m) p q x =
     (if \<not> p < pm_max_row m then Inl Assertion_failed
      else if \<not> q < pm_max_col m then Inl Assertion_failed
      else if p \<ge> pm_first m \<and> p < pm_last m then
        (case MatSetValue (pm_data m) p q x of
           (info, d) \<Rightarrow>
             (case CHECK_PETSC_ERROR g ''MatSetValue()'' info True of
                Inl e \<Rightarrow> Inl e
              | Inr u \<Rightarrow> Inr (Petsc_matrix (m\<lparr>pm_data := d\<rparr>))))
      else Inr (Petsc_matrix m))"
| "mpi_matrix_set MatSetValue MATRIX_BOUND_CHECK g (Local_matrix m) p q x =
     (case matrix_set MATRIX_BOUND_CHECK (lm_data m) (word_of_int p) (word_of_int q) x of
        Inl e \<Rightarrow> Inl e
      | Inr d \<Rightarrow> Inr (Local_matrix (m\<lparr>lm_data := d\<rparr>)))"

subsection \<open>Eigensolver dispatch\<close>

text \<open>
  The calls on the eigensolver object, one after the other. The backend is a
  parameter: from the matrix object and the calls made so far, the last one included,
  it gives the error code of that call. Every check has \<open>stop = true\<close>.
\<close>

fun eps_calls ::
  "('mat \<Rightarrow> 'a eps_call list \<Rightarrow> int) \<Rightarrow> globals \<Rightarrow> 'mat \<Rightarrow> 'a eps_call list
     \<Rightarrow> 'a eps_call list \<Rightarrow> halt + 'a eps_call list"
where
  "eps_calls backend g mat made [] = Inr made"
| "eps_calls backend g mat made (c # cs) =
     (case CHECK_PETSC_ERROR g (eps_name c) (backend mat (made @ [c])) True of
        Inl e \<Rightarrow> Inl e
      | Inr u \<Rightarrow> eps_calls backend g mat (made @ [c]) cs)"

text \<open>
  \<^verbatim>\<open>mpi_matrix_sparse_eigen\<close>. With \<^verbatim>\<open>USE_PETSC\<close> and \<^verbatim>\<open>USE_SLEPC\<close> the solver is
  created, configured and run, and the count that \<^verbatim>\<open>EPSGetConverged\<close> stores is
  returned; that count is the parameter \<open>converged\<close>. The subspace dimension
  \<open>2 * n + 10\<close> is computed in \<^verbatim>\<open>int\<close>. In the dense build the row count, a
  \<^verbatim>\<open>size_t\<close>, is converted to the \<^verbatim>\<open>int\<close> result. Of the five assertions at entry,
  \<^verbatim>\<open>m != NULL\<close> holds by typing and \<^verbatim>\<open>up == up\<close> of both truth values;
  \<^verbatim>\<open>tol == tol\<close> fails for a NaN.
\<close>

fun mpi_matrix_sparse_eigen ::
  "('mat \<Rightarrow> 'a eps_call list \<Rightarrow> int) \<Rightarrow> ('mat \<Rightarrow> 'a eps_call list \<Rightarrow> int)
     \<Rightarrow> 'a linear_algebra_lib \<Rightarrow> globals
     \<Rightarrow> ('mat, 'a) mpi_matrix \<Rightarrow> int \<Rightarrow> int \<Rightarrow> 'a double \<Rightarrow> bool
     \<Rightarrow> halt + ('mat, 'a) mpi_matrix \<times> int"
where
  "mpi_matrix_sparse_eigen backend converged lib g (Petsc_matrix m) n max_step tol up =
     (if \<not> n > 0 then Inl Assertion_failed
      else if \<not> max_step > 0 then Inl Assertion_failed
      else if tol = NaN then Inl Assertion_failed
      else if 2 * n + 10 > 2147483647 then Inl Signed_overflow
      else
        let job = (if up then EPS_LARGEST_REAL else EPS_SMALLEST_REAL)
        in case eps_calls backend g (pm_data m) []
                  [EPSCreate, EPSSetOperators, EPSSetDimensions n (2 * n + 10),
                   EPSSetProblemType EPS_HEP, EPSSetWhichEigenpairs job,
                   EPSSetType EPSKRYLOVSCHUR, EPSSetTolerances tol max_step,
                   EPSSolve, EPSGetConverged] of
             Inl e \<Rightarrow> Inl e
           | Inr calls \<Rightarrow>
               Inr (Petsc_matrix (m\<lparr>pm_solver := calls\<rparr>), converged (pm_data m) calls))"
| "mpi_matrix_sparse_eigen backend converged lib g (Local_matrix m) n max_step tol up =
     (if \<not> n > 0 then Inl Assertion_failed
      else if \<not> max_step > 0 then Inl Assertion_failed
      else if tol = NaN then Inl Assertion_failed
      else
        case matrix_symm_eigen lib (lm_data m) (CHR ''v'') of
          Inl e \<Rightarrow> Inl e
        | Inr (d, eigenval) \<Rightarrow>
            Inr (Local_matrix (m\<lparr>lm_data := d, lm_eigenval := Some eigenval\<rparr>),
                 int_of_size_t (matrix_rows d)))"

text \<open>
  What \<^verbatim>\<open>matrix_alloc\<close> establishes: the buffer has \<open>max_row * max_col\<close> elements, a
  product that fits \<^verbatim>\<open>size_t\<close>.
\<close>

definition matrix_allocated :: "'a matrix \<Rightarrow> bool" where
  "matrix_allocated m =
     (length (data m) = unat (max_row m) * unat (max_col m)
      \<and> unat (max_row m) * unat (max_col m) < 2 ^ 64)"

subsection \<open>Vector handles and the gather output\<close>

text \<open>
  \<^verbatim>\<open>struct mpi_vector\<close>, again one constructor for each build: the backend's vector
  object with the length and the ownership range \<open>[first, last)\<close> of this process, or
  a local buffer with its length.
\<close>

record 'vec mpi_vector_petsc =
  pv_data :: 'vec
  pv_length :: int
  pv_first :: int
  pv_last :: int

record 'a mpi_vector_local =
  lv_data :: "'a list"
  lv_length :: int

datatype ('vec, 'a) mpi_vector =
    Petsc_vector "'vec mpi_vector_petsc"
  | Local_vector "'a mpi_vector_local"

text \<open>
  The output stream is the list of the values written so far, or \<open>None\<close> for a null
  \<^verbatim>\<open>FILE\<close> pointer. \<^verbatim>\<open>fwrite\<close> appends.
\<close>

definition fwrite :: "'a list \<Rightarrow> 'a list option \<Rightarrow> halt + 'a list option" where
  "fwrite xs stream =
     (case stream of None \<Rightarrow> Inl Invalid_access | Some out \<Rightarrow> Inr (Some (out @ xs)))"

text \<open>
  The local variable \<^verbatim>\<open>double value\<close> is a buffer of one element, \<open>cell\<close>; it is what
  \<^verbatim>\<open>VecGetValues\<close>, \<^verbatim>\<open>mpi_send\<close>, \<^verbatim>\<open>mpi_receive\<close> and \<^verbatim>\<open>fwrite\<close> are given the
  address of. The backend call \<^verbatim>\<open>VecGetValues(data, 1, &n, &value)\<close> is a parameter
  giving the error code and the value read.

  The root's loop over its own elements: \<open>n\<close> runs from its start up to, and not
  including, \<open>n_end\<close>.
\<close>

function write_owned ::
  "('vec \<Rightarrow> int \<Rightarrow> int \<times> 'a) \<Rightarrow> globals \<Rightarrow> 'vec \<Rightarrow> int \<Rightarrow> int \<Rightarrow> 'a list
     \<Rightarrow> 'a list option \<Rightarrow> ('a list \<times> 'a list option) \<times> (halt + unit)"
where
  "write_owned VecGetValues g vec n n_end cell stream =
     (if n < n_end then
        (case VecGetValues vec n of
           (info, x) \<Rightarrow>
             (case CHECK_PETSC_ERROR g ''VecGetValues()'' info True of
                Inl e \<Rightarrow> (([x], stream), Inl e)
              | Inr u \<Rightarrow>
                  (case fwrite [x] stream of
                     Inl e \<Rightarrow> (([x], stream), Inl e)
                   | Inr stream' \<Rightarrow>
                       write_owned VecGetValues g vec (n + 1) n_end [x] stream')))
      else ((cell, stream), Inr ()))"
  by pat_completeness auto
termination
  by (relation "measure (\<lambda>(VecGetValues, g, vec, n, n_end, cell, stream). nat (n_end - n))") auto

declare write_owned.simps [simp del]

text \<open>A non-root process's loop: each owned element goes to rank 0 in a message of its own.\<close>

function send_owned ::
  "('vec \<Rightarrow> int \<Rightarrow> int \<times> 'a) \<Rightarrow> bool \<Rightarrow> globals \<Rightarrow> 'vec \<Rightarrow> int \<Rightarrow> int \<Rightarrow> 'a list
     \<Rightarrow> 'a network \<Rightarrow> ('a network \<times> 'a list) \<times> (halt + unit)"
where
  "send_owned VecGetValues USE_MPI g vec n n_end cell net =
     (if n < n_end then
        (case VecGetValues vec n of
           (info, x) \<Rightarrow>
             (case CHECK_PETSC_ERROR g ''VecGetValues()'' info True of
                Inl e \<Rightarrow> ((net, [x]), Inl e)
              | Inr u \<Rightarrow>
                  (case mpi_send USE_MPI g 0 1 (CHR ''d'') [x] net of
                     (net', Inl e) \<Rightarrow> ((net', [x]), Inl e)
                   | (net', Inr u') \<Rightarrow>
                       send_owned VecGetValues USE_MPI g vec (n + 1) n_end [x] net')))
      else ((net, cell), Inr ()))"
  by pat_completeness auto
termination
  by (relation "measure (\<lambda>(VecGetValues, USE_MPI, g, vec, n, n_end, cell, net). nat (n_end - n))")
    auto

declare send_owned.simps [simp del]

text \<open>
  The root's inner loop \<^verbatim>\<open>while (mpi_inbox(from)) { mpi_receive(...); fwrite(...); }\<close>.
  Each round takes one header out of the channel, which is why the loop ends.
\<close>

function drain_inbox ::
  "bool \<Rightarrow> globals \<Rightarrow> size_t \<Rightarrow> 'a list \<Rightarrow> 'a list option \<Rightarrow> 'a network
     \<Rightarrow> ('a network \<times> 'a list \<times> 'a list option) \<times> (halt + unit)"
where
  "drain_inbox USE_MPI g from cell stream net =
     (case mpi_inbox USE_MPI g from net of
        Inl e \<Rightarrow> ((net, cell, stream), Inl e)
      | Inr pending \<Rightarrow>
          if pending then
            (case mpi_receive USE_MPI g from 1 (CHR ''d'') cell net of
               (net', Inl e) \<Rightarrow> ((net', cell, stream), Inl e)
             | (net', Inr cell') \<Rightarrow>
                 (case fwrite cell' stream of
                    Inl e \<Rightarrow> ((net', cell', stream), Inl e)
                  | Inr stream' \<Rightarrow> drain_inbox USE_MPI g from cell' stream' net'))
          else ((net, cell, stream), Inr ()))"
  by pat_completeness auto
termination
proof (relation "measure (\<lambda>(USE_MPI, g, from, cell, stream, net).
                   length (filter is_header (net (from, this_rank g))))", goal_cases)
  case 1
  show ?case by simp
next
  case (2 USE_MPI g "from" cell stream net pending net' res cell' stream')
  have th: "\<And>(q :: 'a packet list) k q'. take_header q = Some (k, q')
              \<Longrightarrow> length (filter is_header q') < length (filter is_header q)"
  proof -
    fix q :: "'a packet list" and k q'
    show "take_header q = Some (k, q')
            \<Longrightarrow> length (filter is_header q') < length (filter is_header q)"
    proof (induction q arbitrary: q')
      case Nil
      then show ?case by simp
    next
      case (Cons p q)
      then show ?case
        by (cases p) (auto split: option.splits)
    qed
  qed
  have tp: "\<And>(q :: 'a packet list) m xs q'. take_payload m q = Some (xs, q')
              \<Longrightarrow> filter is_header q' = filter is_header q"
  proof -
    fix q :: "'a packet list" and m xs q'
    show "take_payload m q = Some (xs, q') \<Longrightarrow> filter is_header q' = filter is_header q"
    proof (induction q arbitrary: q')
      case Nil
      then show ?case by simp
    next
      case (Cons p q)
      then show ?case
        by (cases p) (auto split: option.splits if_splits)
    qed
  qed
  have re: "\<And>t m net1 net2 c. receive_elements from (this_rank g) t m cell net1 = (net2, Inr c)
              \<Longrightarrow> filter is_header (net2 (from, this_rank g))
                  = filter is_header (net1 (from, this_rank g))"
  proof -
    fix t m net1 net2 c
    assume "receive_elements from (this_rank g) t m cell net1 = (net2, Inr c)"
    then obtain xs q where q: "take_payload (nat m) (net1 (from, this_rank g)) = Some (xs, q)"
      and n: "net2 = net1((from, this_rank g) := q)"
      by (auto simp: receive_elements_def MPI_Recv_def split: option.splits if_splits)
    from tp [OF q] n
    show "filter is_header (net2 (from, this_rank g))
            = filter is_header (net1 (from, this_rank g))"
      by simp
  qed
  from 2 have rcv: "mpi_receive USE_MPI g from 1 (CHR ''d'') cell net = (net', Inr cell')"
    and pend: "mpi_inbox USE_MPI g from net = Inr True"
    by simp_all
  from pend have mpi: "USE_MPI" and rk: "from < comm_size g"
    by (auto simp: mpi_inbox_def split: if_splits)
  from rcv mpi rk obtain k q1 where
    h: "take_header (net (from, this_rank g)) = Some (k, q1)"
    and r2: "receive_elements from (this_rank g) MPI_DOUBLE
               (int_of_size_t (min 1 (size_t_of_unsigned k))) cell
               (net((from, this_rank g) := q1)) = (net', Inr cell')"
    by (auto simp: mpi_receive_def MPI_Recv_header_def Let_def split: option.splits)
  have "length (filter is_header (net' (from, this_rank g)))
          < length (filter is_header (net (from, this_rank g)))"
    using th [OF h] re [OF r2] by simp
  then show ?case by simp
qed

declare drain_inbox.simps [simp del]

text \<open>The root's outer loop \<^verbatim>\<open>for (int from = 1; from < mpi_comm_size(); ++from)\<close>.\<close>

function drain_ranks ::
  "bool \<Rightarrow> globals \<Rightarrow> size_t \<Rightarrow> 'a list \<Rightarrow> 'a list option \<Rightarrow> 'a network
     \<Rightarrow> ('a network \<times> 'a list \<times> 'a list option) \<times> (halt + unit)"
where
  "drain_ranks USE_MPI g from cell stream net =
     (if from < mpi_comm_size g then
        (case drain_inbox USE_MPI g from cell stream net of
           (s, Inl e) \<Rightarrow> (s, Inl e)
         | ((net', cell', stream'), Inr u) \<Rightarrow>
             drain_ranks USE_MPI g (from + 1) cell' stream' net')
      else ((net, cell, stream), Inr ()))"
  by pat_completeness auto
termination
proof (relation "measure (\<lambda>(USE_MPI, g, from, cell, stream, net).
                   unat (mpi_comm_size g) - unat from)", goal_cases)
  case 1
  show ?case by simp
next
  case (2 USE_MPI g "from" cell stream net)
  then have "from < mpi_comm_size g" by simp
  then have "unat from < unat (mpi_comm_size g)"
    by (simp add: word_less_nat_alt)
  moreover from this have "unat (from + 1) = unat from + 1"
    using unsigned_less [of "mpi_comm_size g", where ?'a = nat]
    by (simp add: unat_word_ariths)
  ultimately show ?case by simp
qed

declare drain_ranks.simps [simp del]

text \<open>
  \<^verbatim>\<open>mpi_vector_write\<close>. \<open>cell\<close> is the content of the local variable \<^verbatim>\<open>value\<close> at
  entry, which the source leaves uninitialised. The barrier at the start and the
  \<^verbatim>\<open>sleep\<close> of the root change nothing in the state of the calling process and are not
  represented. In the dense build the function is the single \<^verbatim>\<open>fwrite\<close> of \<open>n_max\<close>
  elements starting at element \<open>n_min\<close> of the buffer.
\<close>

fun mpi_vector_write ::
  "('vec \<Rightarrow> int \<Rightarrow> int \<times> 'a) \<Rightarrow> bool \<Rightarrow> globals \<Rightarrow> ('vec, 'a) mpi_vector \<Rightarrow> int \<Rightarrow> int
     \<Rightarrow> 'a list \<Rightarrow> 'a list option \<Rightarrow> 'a network
     \<Rightarrow> ('a network \<times> 'a list option) \<times> (halt + unit)"
where
  "mpi_vector_write VecGetValues USE_MPI g (Petsc_vector v) n_min n_max cell stream net =
     (if \<not> n_min > - 1 then ((net, stream), Inl Assertion_failed)
      else if \<not> n_max > n_min then ((net, stream), Inl Assertion_failed)
      else if \<not> n_max < pv_length v then ((net, stream), Inl Assertion_failed)
      else if mpi_rank g = 0 \<and> stream = None then ((net, stream), Inl Assertion_failed)
      else if mpi_rank g = 0 then
        (if n_min < pv_last v then
           (case write_owned VecGetValues g (pv_data v)
                   (max n_min (pv_first v)) (min n_max (pv_last v)) cell stream of
              ((cell', stream'), Inl e) \<Rightarrow> ((net, stream'), Inl e)
            | ((cell', stream'), Inr u) \<Rightarrow>
                if mpi_comm_size g = 1 then ((net, stream'), Inr ())
                else
                  (case drain_ranks USE_MPI g 1 cell' stream' net of
                     ((net', cell'', stream''), r) \<Rightarrow> ((net', stream''), r)))
         else
           (case drain_ranks USE_MPI g 1 cell stream net of
              ((net', cell', stream'), r) \<Rightarrow> ((net', stream'), r)))
      else
        (if n_min \<ge> pv_last v then ((net, stream), Inr ())
         else
           (case send_owned VecGetValues USE_MPI g (pv_data v)
                   (max n_min (pv_first v)) (min n_max (pv_last v)) cell net of
              ((net', cell'), r) \<Rightarrow> ((net', stream), r))))"
| "mpi_vector_write VecGetValues USE_MPI g (Local_vector v) n_min n_max cell stream net =
     (if \<not> n_min > - 1 then ((net, stream), Inl Assertion_failed)
      else if \<not> n_max > n_min then ((net, stream), Inl Assertion_failed)
      else if \<not> n_max < lv_length v then ((net, stream), Inl Assertion_failed)
      else if mpi_rank g = 0 \<and> stream = None then ((net, stream), Inl Assertion_failed)
      else if length (lv_data v) < nat n_min + nat n_max then ((net, stream), Inl Invalid_access)
      else
        (case fwrite (take (nat n_max) (drop (nat n_min) (lv_data v))) stream of
           Inl e \<Rightarrow> ((net, stream), Inl e)
         | Inr stream' \<Rightarrow> ((net, stream'), Inr ())))"

text \<open>
  Two notions for stating what the gather does. The packets that one call
  \<^verbatim>\<open>mpi_send(0, 1, 'd', &value)\<close> per value puts on a channel, and the values of the
  elements of the requested range \<open>[n_min, n_max)\<close> that a process owns, by ascending
  index.
\<close>

definition one_value_messages :: "'a list \<Rightarrow> 'a packet list" where
  "one_value_messages xs = concat (map (\<lambda>x. [Header 1, Payload MPI_DOUBLE [x]]) xs)"

definition owned_indices :: "'vec mpi_vector_petsc \<Rightarrow> int \<Rightarrow> int \<Rightarrow> int list" where
  "owned_indices v n_min n_max = [max n_min (pv_first v)..min n_max (pv_last v) - 1]"

definition owned_values ::
  "('vec \<Rightarrow> int \<Rightarrow> int \<times> 'a) \<Rightarrow> 'vec mpi_vector_petsc \<Rightarrow> int \<Rightarrow> int \<Rightarrow> 'a list"
where
  "owned_values VecGetValues v n_min n_max =
     map (\<lambda>n. snd (VecGetValues (pv_data v) n)) (owned_indices v n_min n_max)"

section \<open>Facts about 64-bit words\<close>

lemma unat_max64: "unat (- 1 :: 64 word) = 18446744073709551615"
  by (simp add: unsigned_minus_1_eq_mask mask_eq_exp_minus_1)

lemma unat_lt64: "unat (x :: 64 word) < 18446744073709551616"
  using unsigned_less [of x, where ?'a = nat] by simp

lemma unat_add64:
  "unat a + unat b < 18446744073709551616 \<Longrightarrow> unat (a + b :: 64 word) = unat a + unat b"
  using unat_add_lem [of a b] by simp

lemma unat_mult64:
  "unat a * unat b < 18446744073709551616 \<Longrightarrow> unat (a * b :: 64 word) = unat a * unat b"
  using unat_mult_lem [of a b] by simp

lemma unat_mult_div64:
  fixes T S :: "64 word"
  shows "unat (S * (T div S)) = unat S * (unat T div unat S)"
proof -
  have "unat S * unat (T div S) \<le> unat T"
    by (simp add: unat_div)
  also have "... < 18446744073709551616" by (rule unat_lt64)
  finally have "unat (S * (T div S)) = unat S * unat (T div S)"
    by (rule unat_mult64)
  then show ?thesis by (simp add: unat_div)
qed

lemma last_index_closed_form:
  fixes S c :: "64 word"
  shows "(S - 1) * c + (c - 1) = S * c - 1"
  by (simp add: algebra_simps)

lemma remainder_closed_form:
  fixes T S :: "64 word"
  shows "T - S * (T div S) = T mod S"
  by (metis add_diff_cancel_left' mult_div_mod_eq)

section \<open>Task partitioner: what \<^verbatim>\<open>mpi_set_tasks\<close> stores\<close>

lemma set_tasks_fields:
  assumes "mpi_set_tasks T g0 = Inr g"
  shows "this_rank g = this_rank g0" "comm_size g = comm_size g0" "tasks g = T"
    "chunk_size g = T div comm_size g0"
    "last_rank_index g = comm_size g0 * (T div comm_size g0) - 1"
    "extra_tasks g = T mod comm_size g0"
    "0 < T" "comm_size g0 \<noteq> 0"
  using assms
  by (auto simp: mpi_set_tasks_def Let_def last_index_closed_form remainder_closed_form
      split: if_splits)

lemma set_tasks_returns:
  "0 < T \<Longrightarrow> comm_size g0 \<noteq> 0 \<Longrightarrow> \<exists>g. mpi_set_tasks T g0 = Inr g"
  by (simp add: mpi_set_tasks_def Let_def)

lemma extra_task_value:
  "mpi_extra_task g =
     (if has_extra_task g then last_rank_index g + this_rank g + 1 else 0)"
  by (auto simp: mpi_extra_task_def has_extra_task_def Let_def)

lemma extra_task_injective:
  assumes "last_rank_index g = last_rank_index g'"
    "has_extra_task g" "has_extra_task g'" "mpi_extra_task g = mpi_extra_task g'"
  shows "this_rank g = this_rank g'"
  using assms by (simp add: extra_task_value)

lemma low_ranks_have_extra:
  assumes s: "mpi_set_tasks T g0 = Inr g" and lt: "this_rank g0 < extra_tasks g"
  shows "has_extra_task g"
proof -
  let ?S = "comm_size g0" and ?r = "this_rank g0"
  have e: "extra_tasks g = T mod ?S" and l: "last_rank_index g = ?S * (T div ?S) - 1"
    and t: "tasks g = T" and r: "this_rank g = ?r"
    using set_tasks_fields[OF s] by simp_all
  have idx: "last_rank_index g + this_rank g + 1 = ?S * (T div ?S) + ?r"
    by (simp add: l r)
  have lt': "unat ?r < unat T mod unat ?S"
    using lt by (simp add: e word_less_nat_alt unat_mod)
  have le: "unat ?S * (unat T div unat ?S) + unat ?r < unat T"
    using lt' by (metis add_less_cancel_left mult_div_mod_eq)
  then have "unat (?S * (T div ?S)) + unat ?r < 18446744073709551616"
    using unat_lt64 [of T] by (simp add: unat_mult_div64)
  then have "unat (?S * (T div ?S) + ?r) = unat ?S * (unat T div unat ?S) + unat ?r"
    by (simp add: unat_add64 unat_mult_div64)
  then have "?S * (T div ?S) + ?r < T"
    using le by (simp add: word_less_nat_alt)
  moreover have "0 < extra_tasks g"
    using lt' by (simp add: e word_less_nat_alt unat_mod)
  ultimately show ?thesis
    by (simp add: has_extra_task_def idx t)
qed

lemma extra_only_low_ranks:
  assumes s: "mpi_set_tasks T g0 = Inr g" and h: "has_extra_task g"
    and nowrap: "unat (last_rank_index g + 1) + unat (this_rank g0) < 2 ^ 64"
  shows "this_rank g0 < extra_tasks g"
proof -
  let ?S = "comm_size g0" and ?r = "this_rank g0"
  have e: "extra_tasks g = T mod ?S" and l: "last_rank_index g = ?S * (T div ?S) - 1"
    and t: "tasks g = T" and r: "this_rank g = ?r"
    using set_tasks_fields[OF s] by simp_all
  have idx: "last_rank_index g + this_rank g + 1 = ?S * (T div ?S) + ?r"
    by (simp add: l r)
  have "unat (?S * (T div ?S)) + unat ?r < 18446744073709551616"
    using nowrap by (simp add: l)
  then have u: "unat (?S * (T div ?S) + ?r) = unat ?S * (unat T div unat ?S) + unat ?r"
    by (simp add: unat_add64 unat_mult_div64)
  have "?S * (T div ?S) + ?r < T"
    using h by (simp add: has_extra_task_def idx t)
  then have "unat ?S * (unat T div unat ?S) + unat ?r < unat T"
    by (simp add: word_less_nat_alt u)
  then have "unat ?r < unat T mod unat ?S"
    by (metis add_less_cancel_left mult_div_mod_eq)
  then show ?thesis
    by (simp add: e word_less_nat_alt unat_mod)
qed

section \<open>Claims about the task partitioner\<close>

text \<open>
  C10. For every \<open>max_task\<close> with \<open>0 < max_task < comm_size\<close>, the unsigned arithmetic of
  \<^verbatim>\<open>mpi_set_tasks\<close> wraps: it stores \<open>chunk_size = 0\<close>, \<open>last_rank_index = 2 ^ 64 - 1\<close>
  and \<open>extra_tasks = max_task\<close>. Afterwards \<^verbatim>\<open>mpi_first_task()\<close> is 0 and
  \<^verbatim>\<open>mpi_last_task()\<close> is \<open>2 ^ 64 - 1\<close> on every rank, and \<^verbatim>\<open>mpi_extra_task()\<close> is the
  caller's own rank when that rank is below \<open>max_task\<close> and the sentinel 0 otherwise.
\<close>

theorem set_tasks_fewer_tasks_than_ranks:
  assumes "0 < max_task" and "max_task < comm_size g"
  shows "\<exists>g'. mpi_set_tasks max_task g = Inr g'
      \<and> chunk_size g' = 0
      \<and> unat (last_rank_index g') = 2 ^ 64 - 1
      \<and> extra_tasks g' = max_task
      \<and> mpi_first_task g' = 0
      \<and> unat (mpi_last_task g') = 2 ^ 64 - 1
      \<and> mpi_extra_task g' = (if this_rank g < max_task then this_rank g else 0)"
proof -
  have d: "max_task div comm_size g = 0"
    using assms(2) by (simp add: div_word_less)
  have nz: "comm_size g \<noteq> 0" using assms by auto
  show ?thesis
    using assms nz
    by (simp add: mpi_set_tasks_def Let_def d mpi_first_task_def mpi_last_task_def
        mpi_extra_task_def unat_max64)
qed

theorem set_tasks_fewer_tasks_than_ranks_witness:
  "(0 :: size_t) < 2 \<and> (2 :: size_t) < comm_size (rank_globals 5 3)
   \<and> (\<exists>g'. mpi_set_tasks 2 (rank_globals 5 3) = Inr g'
      \<and> chunk_size g' = 0
      \<and> unat (last_rank_index g') = 2 ^ 64 - 1
      \<and> extra_tasks g' = 2
      \<and> mpi_first_task g' = 0
      \<and> unat (mpi_last_task g') = 2 ^ 64 - 1
      \<and> mpi_extra_task g' = 0)"
  using set_tasks_fewer_tasks_than_ranks [of 2 "rank_globals 5 3"]
  by (simp add: rank_globals_def static_init_def)

text \<open>
  C3, as amended. After \<^verbatim>\<open>mpi_set_tasks(max_task)\<close> on rank \<open>r\<close>, \<^verbatim>\<open>mpi_extra_task()\<close>
  returns \<open>last_rank_index + r + 1\<close> when the pool is not empty and that index is below
  \<open>max_task\<close>, and the sentinel 0 otherwise. No two ranks receive the same extra index.
  Every rank below \<open>extra_tasks\<close> receives one and, provided the sum
  \<open>last_rank_index + 1 + r\<close> does not wrap around \<open>2 ^ 64\<close>, only those ranks do. With 4
  processes and 10 tasks the chunk size is 2, the main chunks are 0..1, 2..3, 4..5 and
  6..7, the last main index is 7, two tasks are left over, rank 0 receives 8, rank 1
  receives 9, and ranks 2 and 3 receive the sentinel.
\<close>

theorem extra_task_lowest_ranks_first:
  assumes "mpi_set_tasks max_task (rank_globals n_procs r) = Inr g"
    and "mpi_set_tasks max_task (rank_globals n_procs r') = Inr g'"
  shows "mpi_extra_task g =
           (if 0 < extra_tasks g \<and> last_rank_index g + r + 1 < max_task
            then last_rank_index g + r + 1 else 0)
       \<and> (has_extra_task g \<and> has_extra_task g' \<and> mpi_extra_task g = mpi_extra_task g'
            \<longrightarrow> r = r')
       \<and> (has_extra_task g \<and> unat (last_rank_index g + 1) + unat r < 2 ^ 64
            \<longrightarrow> r < extra_tasks g)
       \<and> (r < extra_tasks g \<longrightarrow> has_extra_task g)
       \<and> map (\<lambda>k. map_sum id
                (\<lambda>h. (chunk_size h, mpi_first_task h, mpi_last_task h, last_rank_index h,
                      extra_tasks h, has_extra_task h, mpi_extra_task h))
                (mpi_set_tasks 10 (rank_globals 4 k))) [0, 1, 2, 3]
         = [Inr (2, 0, 1, 7, 2, True, 8), Inr (2, 2, 3, 7, 2, True, 9),
            Inr (2, 4, 5, 7, 2, False, 0), Inr (2, 6, 7, 7, 2, False, 0)]"
proof -
  have r: "this_rank (rank_globals n_procs r) = r"
    by (simp add: rank_globals_def)
  have f: "this_rank g = r" "this_rank g' = r'" "tasks g = max_task"
    "last_rank_index g = last_rank_index g'"
    using set_tasks_fields [OF assms(1)] set_tasks_fields [OF assms(2)]
    by (simp_all add: rank_globals_def)
  have a: "mpi_extra_task g =
           (if 0 < extra_tasks g \<and> last_rank_index g + r + 1 < max_task
            then last_rank_index g + r + 1 else 0)"
    by (simp add: extra_task_value has_extra_task_def f)
  have b: "has_extra_task g \<and> has_extra_task g' \<and> mpi_extra_task g = mpi_extra_task g'
            \<longrightarrow> r = r'"
    using extra_task_injective [OF f(4)] f(1,2) by blast
  have c: "has_extra_task g \<and> unat (last_rank_index g + 1) + unat r < 2 ^ 64
            \<longrightarrow> r < extra_tasks g"
    using extra_only_low_ranks [OF assms(1)] r by simp
  have d: "r < extra_tasks g \<longrightarrow> has_extra_task g"
    using low_ranks_have_extra [OF assms(1)] r by simp
  have e: "map (\<lambda>k. map_sum id
                (\<lambda>h. (chunk_size h, mpi_first_task h, mpi_last_task h, last_rank_index h,
                      extra_tasks h, has_extra_task h, mpi_extra_task h))
                (mpi_set_tasks 10 (rank_globals 4 k))) [0, 1, 2, 3]
         = [Inr (2, 0, 1, 7, 2, True, 8), Inr (2, 2, 3, 7, 2, True, 9),
            Inr (2, 4, 5, 7, 2, False, 0), Inr (2, 6, 7, 7, 2, False, 0)]"
    by (simp add: mpi_set_tasks_def rank_globals_def static_init_def Let_def
        mpi_first_task_def mpi_last_task_def mpi_extra_task_def has_extra_task_def)
  from a b c d e show ?thesis by blast
qed

theorem extra_task_lowest_ranks_first_witness:
  "mpi_set_tasks 10 (rank_globals 4 0)
     = Inr \<lparr>this_rank = 0, comm_size = 4, thread_level = 0, chunk_size = 2, tasks = 10,
            extra_tasks = 2, last_rank_index = 7\<rparr>
   \<and> has_extra_task \<lparr>this_rank = 0, comm_size = 4, thread_level = 0, chunk_size = 2,
            tasks = 10, extra_tasks = 2, last_rank_index = 7\<rparr>
   \<and> unat (7 + 1 :: size_t) + unat (0 :: size_t) < 2 ^ 64
   \<and> (0 :: size_t) < 2
   \<and> mpi_extra_task \<lparr>this_rank = 0, comm_size = 4, thread_level = 0, chunk_size = 2,
            tasks = 10, extra_tasks = 2, last_rank_index = 7\<rparr> = 8"
  using extra_task_lowest_ranks_first
    [of 10 4 0 "\<lparr>this_rank = 0, comm_size = 4, thread_level = 0, chunk_size = 2, tasks = 10,
                  extra_tasks = 2, last_rank_index = 7\<rparr>"
        0 "\<lparr>this_rank = 0, comm_size = 4, thread_level = 0, chunk_size = 2, tasks = 10,
             extra_tasks = 2, last_rank_index = 7\<rparr>"]
  by (simp add: mpi_set_tasks_def rank_globals_def static_init_def Let_def has_extra_task_def)

text \<open>
  C3 as stated fails where the index computation wraps. With 7 processes and
  \<open>2 ^ 64 - 1\<close> tasks one task is left over, and rank 3 computes
  \<open>last_rank_index + 3 + 1 = 1\<close> modulo \<open>2 ^ 64\<close>, which is below the number of tasks: it
  receives the extra index 1 although it is not below the size of the pool.
\<close>

theorem extra_task_wraps_counterexample:
  "\<not> isl (mpi_set_tasks 18446744073709551615 (rank_globals 7 3))
   \<and> extra_tasks (projr (mpi_set_tasks 18446744073709551615 (rank_globals 7 3))) = 1
   \<and> has_extra_task (projr (mpi_set_tasks 18446744073709551615 (rank_globals 7 3)))
   \<and> mpi_extra_task (projr (mpi_set_tasks 18446744073709551615 (rank_globals 7 3))) = 1
   \<and> \<not> (3 :: size_t)
         < extra_tasks (projr (mpi_set_tasks 18446744073709551615 (rank_globals 7 3)))"
  by (simp add: mpi_set_tasks_def rank_globals_def static_init_def Let_def
        mpi_extra_task_def has_extra_task_def)

text \<open>
  C1 at one task and two processes. \<^verbatim>\<open>mpi_last_task()\<close> is \<open>2 ^ 64 - 1\<close> on both ranks,
  so the range from \<^verbatim>\<open>mpi_first_task()\<close> to \<^verbatim>\<open>mpi_last_task()\<close> holds task 0 on rank 0
  and on rank 1, and holds index 1, which is no task at all; rank 0 owns task 0 a second
  time as its extra task.
\<close>

theorem main_chunks_overlap_when_fewer_tasks_than_ranks:
  "\<not> isl (mpi_set_tasks 1 (rank_globals 2 0)) \<and> \<not> isl (mpi_set_tasks 1 (rank_globals 2 1))
   \<and> mpi_first_task (projr (mpi_set_tasks 1 (rank_globals 2 1))) = 0
   \<and> unat (mpi_last_task (projr (mpi_set_tasks 1 (rank_globals 2 1)))) = 2 ^ 64 - 1
   \<and> in_main_chunk (projr (mpi_set_tasks 1 (rank_globals 2 0))) 0
   \<and> in_main_chunk (projr (mpi_set_tasks 1 (rank_globals 2 1))) 0
   \<and> in_main_chunk (projr (mpi_set_tasks 1 (rank_globals 2 1))) 1
   \<and> has_extra_task (projr (mpi_set_tasks 1 (rank_globals 2 0)))
   \<and> mpi_extra_task (projr (mpi_set_tasks 1 (rank_globals 2 0))) = 0
   \<and> owns_task (projr (mpi_set_tasks 1 (rank_globals 2 0))) 0
   \<and> owns_task (projr (mpi_set_tasks 1 (rank_globals 2 1))) 0"
  by (simp add: mpi_set_tasks_def rank_globals_def static_init_def Let_def
        mpi_first_task_def mpi_last_task_def mpi_extra_task_def has_extra_task_def
        in_main_chunk_def owns_task_def unat_max64)

section \<open>Conversions between \<^verbatim>\<open>size_t\<close>, \<^verbatim>\<open>unsigned\<close> and \<^verbatim>\<open>int\<close>\<close>

lemma sint32_small:
  fixes w :: "32 word"
  assumes "unat w < 2 ^ 31"
  shows "sint w = int (unat w)"
proof -
  have e: "int (unat w) = uint w" by simp
  from assms have "unat w < 2147483648" by simp
  then have "int (unat w) < int 2147483648" by (simp only: of_nat_less_iff)
  then have u: "uint w < 2147483648" by simp
  have "- 2147483648 \<le> uint w"
    using uint_ge_0 [of w] by linarith
  then have "signed_take_bit 31 (uint w) = uint w"
    using u by (intro signed_take_bit_int_eq_self) simp_all
  then have "sint w = uint w"
    by (simp add: sint_uint)
  then show ?thesis by (simp only: e)
qed

lemma sint32_negative:
  fixes w :: "32 word"
  assumes "2 ^ 31 \<le> unat w"
  shows "sint w < 0"
proof -
  from assms have "2147483648 \<le> unat w" by simp
  moreover have "unat w < 4294967296"
    using unsigned_less [of w, where ?'a = nat] by simp
  ultimately have "int 2147483648 \<le> int (unat w)" "int (unat w) < int 4294967296"
    by (simp_all only: of_nat_le_iff of_nat_less_iff)
  then have l: "2147483648 \<le> uint w" and u: "uint w < 4294967296" by simp_all
  have "(uint w + 2147483648) mod 4294967296 = uint w - 2147483648"
    using l u by (simp add: mod_pos_geq)
  then have "signed_take_bit 31 (uint w) = uint w - 4294967296"
    by (simp add: signed_take_bit_eq_take_bit_shift take_bit_eq_mod)
  then have "sint w = uint w - 4294967296"
    by (simp add: sint_uint)
  then show ?thesis using u by simp
qed

text \<open>The header sent is the count modulo \<open>2 ^ 32\<close>; the header received is read back unchanged.\<close>

lemma unat_unsigned_at: "unat (unsigned_at n) = unat n mod 4294967296"
  by (simp add: unsigned_at_def unsigned_ucast_eq take_bit_eq_mod)

lemma unat_header_lt: "unat (k :: 32 word) < 4294967296"
  using unsigned_less [of k, where ?'a = nat] by simp

lemma unat_size_t_of_unsigned: "unat (size_t_of_unsigned k) = unat k"
proof -
  have "unat k < 2 ^ 64" using unat_header_lt [of k] by simp
  then show ?thesis
    by (simp add: size_t_of_unsigned_def unsigned_ucast_eq take_bit_nat_eq_self)
qed

lemma unat_min_word: "unat (min a b) = min (unat a) (unat b)"
  by (simp add: min_def word_le_nat_alt)

text \<open>
  The \<^verbatim>\<open>int\<close> that a \<^verbatim>\<open>size_t\<close> is converted to is read from its low 32 bits: it is
  that number when bit 31 is clear and it is negative when bit 31 is set.
\<close>

lemma int_of_size_t_low_bits:
  "unat n mod 4294967296 < 2 ^ 31 \<Longrightarrow> int_of_size_t n = int (unat n mod 4294967296)"
  unfolding int_of_size_t_def
  using sint32_small [of "ucast n"]
  by (simp add: unsigned_ucast_eq take_bit_eq_mod)

lemma int_of_size_t_negative:
  "2 ^ 31 \<le> unat n mod 4294967296 \<Longrightarrow> int_of_size_t n < 0"
  unfolding int_of_size_t_def
  using sint32_negative [of "ucast n"]
  by (simp add: unsigned_ucast_eq take_bit_eq_mod)

lemma int_of_size_t_small: "unat n < 2 ^ 31 \<Longrightarrow> int_of_size_t n = int (unat n)"
  using int_of_size_t_low_bits [of n] by simp

lemma rows_to_int:
  fixes R :: "64 word"
  assumes "unat R < 2 ^ 31"
  shows "sint (ucast R :: 32 word) = int (unat R)"
  using int_of_size_t_small [OF assms] by (simp only: int_of_size_t_def)

section \<open>Typed messaging\<close>

lemma send_elements_never_exits:
  "snd (send_elements sender dest t count buffer net) \<noteq> Inl (Exit_failure e)"
  by (simp add: send_elements_def)

lemma receive_elements_never_exits:
  "snd (receive_elements sender dest t count buffer net) \<noteq> Inl (Exit_failure e)"
  by (simp add: receive_elements_def split: option.splits prod.splits)

lemma send_supported_never_exits:
  "supported_type ty \<Longrightarrow>
     snd (mpi_send USE_MPI g dest n ty buffer net) \<noteq> Inl (Exit_failure e)"
  by (auto simp: mpi_send_def supported_type_def Let_def send_elements_never_exits)

lemma receive_supported_never_exits:
  "supported_type ty \<Longrightarrow>
     snd (mpi_receive USE_MPI g sender n ty buffer net) \<noteq> Inl (Exit_failure e)"
  by (auto simp: mpi_receive_def supported_type_def Let_def receive_elements_never_exits
      split: option.splits prod.splits)

text \<open>Without \<^verbatim>\<open>USE_MPI\<close> a call whose assertions hold returns and changes nothing.\<close>

lemma send_without_mpi:
  "0 < n \<Longrightarrow> dest < comm_size g \<Longrightarrow> mpi_send False g dest n ty buffer net = (net, Inr ())"
  by (simp add: mpi_send_def)

lemma receive_without_mpi:
  "0 < n \<Longrightarrow> sender < comm_size g \<Longrightarrow>
     mpi_receive False g sender n ty buffer net = (net, Inr buffer)"
  by (simp add: mpi_receive_def)

text \<open>
  A send whose assertions hold, of a supported type: the header, then the payload send
  of the datatype selected, with the count converted to \<^verbatim>\<open>int\<close>.
\<close>

lemma send_dispatch:
  assumes "0 < n" and "dest < comm_size g" and "supported_type ty"
  shows "mpi_send True g dest n ty buffer net
     = send_elements (this_rank g) dest (datatype_of ty) (int_of_size_t n) buffer
         (MPI_Send (this_rank g) dest (Header (unsigned_at n)) net)"
  using assms
  by (auto simp: mpi_send_def supported_type_def Let_def datatype_of_def)

text \<open>With a count below \<open>2 ^ 31\<close> and a buffer that has \<open>n\<close> elements.\<close>

lemma send_supported:
  assumes "0 < n" and "dest < comm_size g" and "supported_type ty"
    and "unat n < 2 ^ 31" and "unat n \<le> length buffer"
  shows "mpi_send True g dest n ty buffer net
     = (net((this_rank g, dest) :=
              net (this_rank g, dest)
                @ [Header (unsigned_at n), Payload (datatype_of ty) (take (unat n) buffer)]),
        Inr ())"
  using assms(5)
  by (simp add: send_dispatch [OF assms(1,2,3)] int_of_size_t_small [OF assms(4)]
      send_elements_def MPI_Send_def)

text \<open>
  With a count whose bit 31 is set the \<^verbatim>\<open>int\<close> is negative: the header has been sent
  and the library refuses the payload.
\<close>

lemma send_negative_count:
  assumes "0 < n" and "dest < comm_size g" and "supported_type ty"
    and "2 ^ 31 \<le> unat n mod 4294967296"
  shows "mpi_send True g dest n ty buffer net
     = (MPI_Send (this_rank g) dest (Header (unsigned_at n)) net, Inl Invalid_count)"
  by (simp add: send_dispatch [OF assms(1,2,3)] int_of_size_t_negative [OF assms(4)]
      send_elements_def)

text \<open>
  Every send that returns, in a build with \<^verbatim>\<open>USE_MPI\<close>, has put on the channel a header
  and a payload with as many elements as the header says, fewer than \<open>2 ^ 31\<close>.
\<close>

lemma send_header_matches_payload:
  assumes "mpi_send True g dest n ty buffer net = (net', Inr ())"
  shows "\<exists>k sent. net' = net((this_rank g, dest) :=
                            net (this_rank g, dest) @ [Header k, Payload (datatype_of ty) sent])
           \<and> unat k = length sent \<and> length sent < 2 ^ 31
           \<and> sent = take (length sent) buffer"
proof -
  from assms have a: "0 < n" "dest < comm_size g"
    by (auto simp: mpi_send_def split: if_splits)
  have s: "supported_type ty"
  proof (rule ccontr)
    assume "\<not> supported_type ty"
    then have "snd (mpi_send True g dest n ty buffer net) = Inl (Exit_failure (Invalid_type ty))"
      using a by (simp add: mpi_send_def supported_type_def Let_def)
    with assms show False by simp
  qed
  let ?c = "int_of_size_t n"
  let ?net1 = "MPI_Send (this_rank g) dest (Header (unsigned_at n)) net"
  from assms have e: "send_elements (this_rank g) dest (datatype_of ty) ?c buffer ?net1
                        = (net', Inr ())"
    by (simp only: send_dispatch [OF a s])
  then have c0: "\<not> ?c < 0" and room: "\<not> length buffer < nat ?c"
    and n': "net' = MPI_Send (this_rank g) dest
                      (Payload (datatype_of ty) (take (nat ?c) buffer)) ?net1"
    by (auto simp: send_elements_def split: if_splits)
  have low: "unat n mod 4294967296 < 2 ^ 31"
    using c0 int_of_size_t_negative [of n] by fastforce
  have c: "nat ?c = unat n mod 4294967296"
    by (simp add: int_of_size_t_low_bits [OF low])
  let ?sent = "take (nat ?c) buffer"
  have l: "length ?sent = nat ?c" using room by simp
  have "net' = net((this_rank g, dest) :=
                 net (this_rank g, dest) @ [Header (unsigned_at n), Payload (datatype_of ty) ?sent])"
    by (simp add: n' MPI_Send_def)
  moreover have h: "unat (unsigned_at n) = nat ?c"
    by (simp only: unat_unsigned_at c)
  have "unat (unsigned_at n) = length ?sent"
    unfolding l by (rule h)
  moreover have "nat ?c < 2 ^ 31"
    unfolding c by (rule low)
  then have "length ?sent < 2 ^ 31"
    unfolding l .
  moreover have "?sent = take (length ?sent) buffer"
    by (simp only: l)
  ultimately show ?thesis by blast
qed

text \<open>
  A receive whose assertions hold, of a supported type, when the oldest packet from the
  sender is a header: the count given to the library is the minimum of \<open>n\<close> and the
  header.
\<close>

lemma receive_dispatch:
  assumes "0 < n" and "sender < comm_size g" and "supported_type ty"
    and "net (sender, this_rank g) = Header k # rest"
  shows "mpi_receive True g sender n ty buffer net
     = receive_elements sender (this_rank g) (datatype_of ty)
         (int_of_size_t (min n (size_t_of_unsigned k))) buffer
         (net((sender, this_rank g) := rest))"
proof -
  have h: "MPI_Recv_header sender (this_rank g) net
           = Some (k, net((sender, this_rank g) := rest))"
    by (simp add: MPI_Recv_header_def assms(4))
  show ?thesis
    using assms(1,2,3) by (auto simp: mpi_receive_def h supported_type_def Let_def datatype_of_def)
qed

lemma receive_count:
  assumes "min (unat n) (unat k) < 2 ^ 31"
  shows "int_of_size_t (min n (size_t_of_unsigned k)) = int (min (unat n) (unat k))"
proof -
  have "unat (min n (size_t_of_unsigned k)) = min (unat n) (unat k)"
    by (simp add: unat_min_word unat_size_t_of_unsigned)
  then show ?thesis
    using int_of_size_t_small [of "min n (size_t_of_unsigned k)"] assms by simp
qed

text \<open>
  When a payload follows the header and the minimum \<open>m\<close> is below \<open>2 ^ 31\<close>: the first
  \<open>m\<close> elements of the payload, or all of a shorter one, are stored at the start of the
  buffer and taken off the channel with the header.
\<close>

lemma receive_matched:
  assumes "0 < n" and "sender < comm_size g" and "supported_type ty"
    and "net (sender, this_rank g) = Header k # Payload t sent # rest"
    and "m = min (unat n) (unat k)" and "m < 2 ^ 31"
    and "min m (length sent) \<le> length buffer"
  shows "mpi_receive True g sender n ty buffer net
           = (net((sender, this_rank g) :=
                    (if m < length sent then Payload t (drop m sent) # rest else rest)),
              Inr (take m sent @ drop (min m (length sent)) buffer))"
proof -
  have c: "int_of_size_t (min n (size_t_of_unsigned k)) = int m"
    using receive_count [of n k] assms(5,6) by simp
  have p: "\<And>t'. receive_elements sender (this_rank g) t' (int m) buffer
              (net((sender, this_rank g) := Payload t sent # rest))
           = (net((sender, this_rank g) :=
                    (if m < length sent then Payload t (drop m sent) # rest else rest)),
              Inr (take m sent @ drop (min m (length sent)) buffer))"
    using assms(7) by (auto simp: receive_elements_def MPI_Recv_def min.commute)
  show ?thesis
    by (simp only: receive_dispatch
          [of n sender g ty net k "Payload t sent # rest" buffer, OF assms(1,2,3,4)] c p)
qed

text \<open>
  When the minimum of \<open>n\<close> and the header is \<open>2 ^ 31\<close> or more, the \<^verbatim>\<open>int\<close> is negative:
  the header has been received and the library refuses the payload receive.
\<close>

lemma receive_negative_count:
  assumes "0 < n" and "sender < comm_size g" and "supported_type ty"
    and "net (sender, this_rank g) = Header k # rest"
    and "2 ^ 31 \<le> min (unat n) (unat k)"
  shows "mpi_receive True g sender n ty buffer net
           = (net((sender, this_rank g) := rest), Inl Invalid_count)"
proof -
  let ?m = "min n (size_t_of_unsigned k)"
  have u: "unat ?m = min (unat n) (unat k)"
    by (simp add: unat_min_word unat_size_t_of_unsigned)
  have "unat ?m < 4294967296"
    using unat_header_lt [of k] by (simp add: u)
  then have "unat ?m mod 4294967296 = unat ?m" by simp
  then have "2 ^ 31 \<le> unat ?m mod 4294967296"
    using assms(5) u by simp
  then have "int_of_size_t ?m < 0" by (rule int_of_size_t_negative)
  then show ?thesis
    by (simp add: receive_dispatch [of n sender g ty net k rest buffer, OF assms(1,2,3,4)]
        receive_elements_def)
qed

text \<open>
  The count \<open>2 ^ 32 + 2\<close>: the header carries 2 and two elements are sent. The count
  \<open>2 ^ 31\<close>: the header carries it, the payload is refused, and so is its receive.
\<close>

lemma send_count_above_unsigned:
  "mpi_send True (rank_globals 2 1) 0 4294967298 CHR ''i'' [5, 6, 7 :: int] no_messages
     = (no_messages((1, 0) := [Header 2, Payload MPI_INT [5, 6]]), Inr ())"
proof -
  have u: "unat (4294967298 :: size_t) mod 4294967296 = 2" by simp
  have i: "int_of_size_t 4294967298 = 2"
    using int_of_size_t_low_bits [of 4294967298] by (simp add: u)
  have h: "unsigned_at 4294967298 = 2"
    by (rule word_unat_eq_iff [THEN iffD2]) (simp add: unat_unsigned_at)
  have s: "supported_type CHR ''i''" by (simp add: supported_type_def)
  have r: "this_rank (rank_globals 2 1) = 1" "(0 :: size_t) < comm_size (rank_globals 2 1)"
    by (simp_all add: rank_globals_def static_init_def)
  show ?thesis
    using send_dispatch [of 4294967298 0 "rank_globals 2 1" "CHR ''i''" "[5, 6, 7 :: int]"
        no_messages] s r
    by (simp add: i h send_elements_def MPI_Send_def datatype_of_def no_messages_def)
qed

lemma count_above_int:
  "mpi_send True (rank_globals 2 1) 0 2147483648 CHR ''i'' [5, 6, 7 :: int] no_messages
     = (no_messages((1, 0) := [Header 2147483648]), Inl Invalid_count)
   \<and> mpi_receive True (rank_globals 2 0) 1 2147483648 CHR ''i'' [0, 0, 0 :: int]
       (no_messages((1, 0) := [Header 2147483648]))
     = (no_messages((1, 0) := []), Inl Invalid_count)"
proof -
  have h: "unsigned_at 2147483648 = 2147483648"
    by (rule word_unat_eq_iff [THEN iffD2]) (simp add: unat_unsigned_at)
  have s: "supported_type CHR ''i''" by (simp add: supported_type_def)
  have r: "this_rank (rank_globals 2 1) = 1" "(0 :: size_t) < comm_size (rank_globals 2 1)"
    "this_rank (rank_globals 2 0) = 0" "(1 :: size_t) < comm_size (rank_globals 2 0)"
    by (simp_all add: rank_globals_def static_init_def)
  have a: "mpi_send True (rank_globals 2 1) 0 2147483648 CHR ''i'' [5, 6, 7 :: int] no_messages
     = (no_messages((1, 0) := [Header 2147483648]), Inl Invalid_count)"
    using send_negative_count [of 2147483648 0 "rank_globals 2 1" "CHR ''i''" "[5, 6, 7 :: int]"
        no_messages] s r
    by (simp add: h MPI_Send_def no_messages_def)
  have b: "mpi_receive True (rank_globals 2 0) 1 2147483648 CHR ''i'' [0, 0, 0 :: int]
       (no_messages((1, 0) := [Header 2147483648]))
     = (no_messages((1, 0) := []), Inl Invalid_count)"
    using receive_negative_count [of 2147483648 1 "rank_globals 2 0" "CHR ''i''"
        "no_messages((1, 0) := [Header 2147483648])" 2147483648 "[]" "[0, 0, 0 :: int]"] s r
    by simp
  from a b show ?thesis by (rule conjI)
qed

text \<open>
  C9, as amended. In a build with \<^verbatim>\<open>USE_MPI\<close>, a call of \<^verbatim>\<open>mpi_send\<close> whose assertions hold
  and whose type is not one of \<open>i\<close>, \<open>c\<close>, \<open>f\<close>, \<open>d\<close> sends the header, reports
  \<open>invalid type\<close> with the character and exits with a failure status; a call of
  \<^verbatim>\<open>mpi_receive\<close> with such a type does the same once it has received a header from the
  sender. For a type of that set neither function takes the fatal branch, in any build.
  In a build without \<^verbatim>\<open>USE_MPI\<close> both functions return normally for every type, and
  the network and the buffer are as before.
\<close>

theorem unsupported_type_is_fatal:
  "(0 < n \<and> dest < comm_size g \<and> \<not> supported_type ty \<longrightarrow>
      mpi_send True g dest n ty buffer net
        = (MPI_Send (this_rank g) dest (Header (unsigned_at n)) net,
           Inl (Exit_failure (Invalid_type ty))))
   \<and> (0 < n \<and> sender < comm_size g \<and> \<not> supported_type ty
        \<and> MPI_Recv_header sender (this_rank g) net = Some (k, net1) \<longrightarrow>
      mpi_receive True g sender n ty buffer net = (net1, Inl (Exit_failure (Invalid_type ty))))
   \<and> (supported_type ty \<longrightarrow>
        snd (mpi_send USE_MPI g dest n ty buffer net) \<noteq> Inl (Exit_failure e)
      \<and> snd (mpi_receive USE_MPI g sender n ty buffer net) \<noteq> Inl (Exit_failure e))
   \<and> (0 < n \<and> dest < comm_size g \<longrightarrow>
        mpi_send False g dest n ty buffer net = (net, Inr ()))
   \<and> (0 < n \<and> sender < comm_size g \<longrightarrow>
        mpi_receive False g sender n ty buffer net = (net, Inr buffer))"
proof (intro conjI impI)
  assume "0 < n \<and> dest < comm_size g \<and> \<not> supported_type ty"
  then show "mpi_send True g dest n ty buffer net
        = (MPI_Send (this_rank g) dest (Header (unsigned_at n)) net,
           Inl (Exit_failure (Invalid_type ty)))"
    by (simp add: mpi_send_def supported_type_def Let_def)
next
  assume "0 < n \<and> sender < comm_size g \<and> \<not> supported_type ty
        \<and> MPI_Recv_header sender (this_rank g) net = Some (k, net1)"
  then show "mpi_receive True g sender n ty buffer net
        = (net1, Inl (Exit_failure (Invalid_type ty)))"
    by (simp add: mpi_receive_def supported_type_def Let_def)
next
  assume "supported_type ty"
  then show "snd (mpi_send USE_MPI g dest n ty buffer net) \<noteq> Inl (Exit_failure e)"
    by (rule send_supported_never_exits)
next
  assume "supported_type ty"
  then show "snd (mpi_receive USE_MPI g sender n ty buffer net) \<noteq> Inl (Exit_failure e)"
    by (rule receive_supported_never_exits)
next
  assume "0 < n \<and> dest < comm_size g"
  then show "mpi_send False g dest n ty buffer net = (net, Inr ())"
    by (simp add: send_without_mpi)
next
  assume "0 < n \<and> sender < comm_size g"
  then show "mpi_receive False g sender n ty buffer net = (net, Inr buffer)"
    by (simp add: receive_without_mpi)
qed

theorem unsupported_type_is_fatal_witness:
  "\<not> supported_type CHR ''x'' \<and> supported_type CHR ''d''
   \<and> (1 :: size_t) < comm_size (rank_globals 2 0)
   \<and> MPI_Recv_header 1 (this_rank (rank_globals 2 0))
         (MPI_Send 1 0 (Header 3) (no_messages :: int network))
       = Some (3, no_messages((1, 0) := []))
   \<and> mpi_send True (rank_globals 2 0) 1 2 CHR ''x'' [5, 6 :: int]
         (MPI_Send 1 0 (Header 3) no_messages)
       = (MPI_Send 0 1 (Header 2) (MPI_Send 1 0 (Header 3) no_messages),
          Inl (Exit_failure (Invalid_type CHR ''x'')))
   \<and> mpi_receive True (rank_globals 2 0) 1 2 CHR ''x'' [5, 6 :: int]
         (MPI_Send 1 0 (Header 3) no_messages)
       = (no_messages((1, 0) := []), Inl (Exit_failure (Invalid_type CHR ''x'')))
   \<and> snd (mpi_send True (rank_globals 2 0) 1 2 CHR ''d'' [5, 6 :: int]
         (MPI_Send 1 0 (Header 3) no_messages)) \<noteq> Inl (Exit_failure (Invalid_type CHR ''d''))
   \<and> snd (mpi_receive True (rank_globals 2 0) 1 2 CHR ''d'' [5, 6 :: int]
         (MPI_Send 1 0 (Header 3) no_messages)) \<noteq> Inl (Exit_failure (Invalid_type CHR ''d''))
   \<and> mpi_send False (rank_globals 2 0) 1 2 CHR ''x'' [5, 6 :: int]
         (MPI_Send 1 0 (Header 3) no_messages)
       = (MPI_Send 1 0 (Header 3) no_messages, Inr ())
   \<and> mpi_receive False (rank_globals 2 0) 1 2 CHR ''x'' [5, 6 :: int]
         (MPI_Send 1 0 (Header 3) no_messages)
       = (MPI_Send 1 0 (Header 3) no_messages, Inr [5, 6])"
proof -
  have h: "MPI_Recv_header 1 (this_rank (rank_globals 2 0))
             (MPI_Send 1 0 (Header 3) (no_messages :: int network))
           = Some (3, no_messages((1, 0) := []))"
    by (simp add: MPI_Recv_header_def MPI_Send_def no_messages_def rank_globals_def
        static_init_def)
  have s: "\<not> supported_type CHR ''x''" "supported_type CHR ''d''"
    by (simp_all add: supported_type_def)
  have r: "(1 :: size_t) < comm_size (rank_globals 2 0)"
    "this_rank (rank_globals 2 0) = 0"
    by (simp_all add: rank_globals_def static_init_def)
  have u: "unsigned_at 2 = 2"
    by (rule word_unat_eq_iff [THEN iffD2]) (simp add: unat_unsigned_at)
  show ?thesis
    using unsupported_type_is_fatal
      [of 2 1 "rank_globals 2 0" "CHR ''x''" "[5, 6 :: int]"
          "MPI_Send 1 0 (Header 3) no_messages" 1 3 "no_messages((1, 0) := [])" True
          "Invalid_type CHR ''d''"]
      unsupported_type_is_fatal
      [of 2 1 "rank_globals 2 0" "CHR ''d''" "[5, 6 :: int]"
          "MPI_Send 1 0 (Header 3) no_messages" 1 3 "no_messages((1, 0) := [])" True
          "Invalid_type CHR ''d''"]
      h s r u
    by simp
qed

text \<open>
  C9 as stated fails in a build without \<^verbatim>\<open>USE_MPI\<close>: both functions return normally
  whatever the type is, and the buffer and the network are as before.
\<close>

theorem unsupported_type_without_mpi_counterexample:
  "\<not> supported_type CHR ''x''
   \<and> mpi_send False (rank_globals 1 0) 0 1 CHR ''x'' [0 :: int] no_messages
       = (no_messages, Inr ())
   \<and> mpi_receive False (rank_globals 1 0) 0 1 CHR ''x'' [0 :: int] no_messages
       = (no_messages, Inr [0])"
  by (simp add: mpi_send_def mpi_receive_def supported_type_def rank_globals_def
      static_init_def)

text \<open>
  C4. A call of \<^verbatim>\<open>mpi_receive\<close> for \<open>n\<close> elements, when the oldest packets from the sender
  are a header \<open>k\<close> and a payload, reads the header, computes \<open>m = min n k\<close> and stores the
  first \<open>m\<close> elements of the payload, all of it if it is shorter. It returns normally
  whether or not the lengths agree. The header and the elements stored leave the
  channel and the rest of a longer payload stays there; the buffer keeps its length,
  and its elements from the stored count on are what they were; the stored count is at
  most \<open>n\<close>. A sender that sent \<open>n'\<close> elements has put the header \<open>n'\<close> and a payload of
  \<open>n'\<close> elements: the stored count is then \<open>min n n'\<close>. The library takes the count as an
  \<^verbatim>\<open>int\<close>, so \<open>m\<close> is below \<open>2 ^ 31\<close>; it always is after a send that returned, whose
  header is below \<open>2 ^ 31\<close>.
\<close>

theorem receive_stores_minimum:
  assumes "0 < n" and "sender < comm_size g" and "supported_type ty"
    and "net (sender, this_rank g) = Header k # Payload t sent # rest"
    and "m = min (unat n) (unat k)" and "m < 2 ^ 31"
    and "min m (length sent) \<le> length buffer"
  shows "\<exists>received.
       mpi_receive True g sender n ty buffer net
         = (net((sender, this_rank g) :=
                  (if m < length sent then Payload t (drop m sent) # rest else rest)),
            Inr received)
     \<and> received = take m sent @ drop (min m (length sent)) buffer
     \<and> length received = length buffer
     \<and> (\<forall>i < min m (length sent). received ! i = sent ! i)
     \<and> (\<forall>i. min m (length sent) \<le> i \<and> i < length buffer \<longrightarrow> received ! i = buffer ! i)
     \<and> min m (length sent) \<le> unat n
     \<and> (length sent = unat k \<longrightarrow> min m (length sent) = min (unat n) (length sent))"
proof -
  let ?c = "min m (length sent)"
  let ?out = "take m sent @ drop ?c buffer"
  have len: "length (take m sent) = ?c"
    by (simp add: min.commute)
  have r: "mpi_receive True g sender n ty buffer net
           = (net((sender, this_rank g) :=
                    (if m < length sent then Payload t (drop m sent) # rest else rest)),
              Inr ?out)"
    by (rule receive_matched [of n sender g ty net k t sent rest m buffer, OF assms])
  have a: "\<forall>i < ?c. ?out ! i = sent ! i"
    using len by (simp add: nth_append)
  have b: "\<forall>i. ?c \<le> i \<and> i < length buffer \<longrightarrow> ?out ! i = buffer ! i"
    using len by (auto simp: nth_append simp del: length_take)
  have c: "length ?out = length buffer"
    using assms(7) len by (simp del: length_take)
  have d: "?c \<le> unat n"
    using assms(5) by simp
  have e: "length sent = unat k \<longrightarrow> ?c = min (unat n) (length sent)"
    using assms(5) by simp
  from r a b c d e show ?thesis by blast
qed

theorem receive_stores_minimum_witness:
  "(0 :: size_t) < 2 \<and> (1 :: size_t) < comm_size (rank_globals 2 0) \<and> supported_type CHR ''d''
   \<and> (no_messages((1, 0) := [Header 3, Payload MPI_DOUBLE [7, 8, 9 :: int]]))
        (1, this_rank (rank_globals 2 0)) = Header 3 # Payload MPI_DOUBLE [7, 8, 9] # []
   \<and> (2 :: nat) = min (unat (2 :: size_t)) (unat (3 :: 32 word)) \<and> (2 :: nat) < 2 ^ 31
   \<and> min 2 (length [7, 8, 9 :: int]) \<le> length [0, 0, 0, 0 :: int]
   \<and> mpi_receive True (rank_globals 2 0) 1 2 CHR ''d'' [0, 0, 0, 0 :: int]
            (no_messages((1, 0) := [Header 3, Payload MPI_DOUBLE [7, 8, 9]]))
       = (no_messages((1, 0) := [Payload MPI_DOUBLE [9]]), Inr [7, 8, 0, 0])"
proof -
  have r: "(1 :: size_t) < comm_size (rank_globals 2 0)" "this_rank (rank_globals 2 0) = 0"
    by (simp_all add: rank_globals_def static_init_def)
  have s: "supported_type CHR ''d''" by (simp add: supported_type_def)
  have q: "(no_messages((1, 0) := [Header 3, Payload MPI_DOUBLE [7, 8, 9 :: int]]))
             (1, this_rank (rank_globals 2 0)) = Header 3 # Payload MPI_DOUBLE [7, 8, 9] # []"
    by (simp add: r)
  have m: "(2 :: nat) = min (unat (2 :: size_t)) (unat (3 :: 32 word))" by simp
  from receive_stores_minimum
    [of 2 1 "rank_globals 2 0" "CHR ''d''"
        "no_messages((1, 0) := [Header 3, Payload MPI_DOUBLE [7, 8, 9 :: int]])"
        3 MPI_DOUBLE "[7, 8, 9]" "[]" 2 "[0, 0, 0, 0]", OF _ r(1) s q m]
  have "mpi_receive True (rank_globals 2 0) 1 2 CHR ''d'' [0, 0, 0, 0 :: int]
            (no_messages((1, 0) := [Header 3, Payload MPI_DOUBLE [7, 8, 9]]))
       = (no_messages((1, 0) := [Payload MPI_DOUBLE [9]]), Inr [7, 8, 0, 0])"
    by (simp add: r)
  then show ?thesis
    using r s q by simp
qed

text \<open>
  C5, as amended. In a build with \<^verbatim>\<open>USE_MPI\<close>, for a supported type, ranks \<open>s\<close> and \<open>d\<close> of
  the communicator, a channel from \<open>s\<close> to \<open>d\<close> with nothing in flight and a count \<open>n\<close>
  with \<open>0 < n < 2 ^ 31\<close>: \<^verbatim>\<open>mpi_send\<close> on \<open>s\<close> puts the header, which carries the count
  \<open>n\<close>, and then the typed payload of \<open>n\<close> elements on the channel; \<^verbatim>\<open>mpi_receive\<close> of
  \<open>n' > 0\<close> elements on \<open>d\<close> then takes the header and \<open>min n n'\<close> elements off the
  channel and returns a buffer whose first \<open>min n n'\<close> elements are those of the
  sender's buffer, the rest of it being as before. The minimum is computed from the
  header: whatever header \<open>k\<close> precedes a payload on the channel, the receive stores the
  first \<open>min n' k\<close> elements of that payload. In a build without \<^verbatim>\<open>USE_MPI\<close> the two
  calls return and change nothing.
\<close>

theorem send_receive_round_trip:
  fixes buffer :: "'a list"
  assumes "supported_type ty"
    and "0 < n" and "unat n < 2 ^ 31" and "unat n \<le> length buffer"
    and "0 < n'" and "min (unat n) (unat n') \<le> length outbuf"
    and "this_rank gs = s" and "d < comm_size gs"
    and "this_rank gd = d" and "s < comm_size gd"
    and "net (s, d) = []"
  shows "(\<exists>net1 net2 out.
       mpi_send True gs d n ty buffer net = (net1, Inr ())
     \<and> net1 = net((s, d) :=
                  [Header (unsigned_at n), Payload (datatype_of ty) (take (unat n) buffer)])
     \<and> unat (unsigned_at n) = unat n
     \<and> mpi_receive True gd s n' ty outbuf net1 = (net2, Inr out)
     \<and> net2 = net((s, d) :=
                  (if unat n' < unat n
                   then [Payload (datatype_of ty) (drop (unat n') (take (unat n) buffer))]
                   else []))
     \<and> out = take (min (unat n) (unat n')) buffer @ drop (min (unat n) (unat n')) outbuf
     \<and> length out = length outbuf
     \<and> (\<forall>i < min (unat n) (unat n'). out ! i = buffer ! i))
   \<and> (\<forall>k sent. min (unat n') (unat k) < 2 ^ 31
          \<and> min (min (unat n') (unat k)) (length sent) \<le> length outbuf \<longrightarrow>
        snd (mpi_receive True gd s n' ty outbuf
               (net((s, d) := [Header k, Payload (datatype_of ty) sent])))
          = Inr (take (min (unat n') (unat k)) sent
                   @ drop (min (min (unat n') (unat k)) (length sent)) outbuf))
   \<and> mpi_send False gs d n ty buffer net = (net, Inr ())
   \<and> mpi_receive False gd s n' ty outbuf net = (net, Inr outbuf)"
proof (intro conjI allI impI)
  let ?dt = "datatype_of ty"
  let ?sent = "take (unat n) buffer"
  let ?net1 = "net((s, d) := [Header (unsigned_at n), Payload ?dt ?sent])"
  let ?m = "min (unat n') (unat (unsigned_at n))"
  have hv: "unat (unsigned_at n) = unat n"
    using assms(3) by (simp add: unat_unsigned_at)
  have ls: "length ?sent = unat n"
    using assms(4) by simp
  have m: "?m = min (unat n) (unat n')"
    by (simp add: hv min.commute)
  have s1: "mpi_send True gs d n ty buffer net = (?net1, Inr ())"
    using send_supported [OF assms(2) assms(8) assms(1) assms(3) assms(4), of net] assms(7,11)
    by simp
  have q: "?net1 (s, this_rank gd) = Header (unsigned_at n) # Payload ?dt ?sent # []"
    using assms(9) by simp
  have m31: "?m < 2 ^ 31"
    using assms(3) by (simp add: hv)
  have room: "min ?m (length ?sent) \<le> length outbuf"
    using assms(6) by (simp add: ls m)
  have r0: "mpi_receive True gd s n' ty outbuf ?net1
           = (?net1((s, this_rank gd) :=
                 (if ?m < length ?sent then Payload ?dt (drop ?m ?sent) # [] else [])),
              Inr (take ?m ?sent @ drop (min ?m (length ?sent)) outbuf))"
    by (rule receive_matched
          [of n' s gd ty ?net1 "unsigned_at n" ?dt ?sent "[]" ?m outbuf,
           OF assms(5) assms(10) assms(1) q refl m31 room])
  let ?c = "min (unat n) (unat n')"
  let ?out = "take ?c buffer @ drop ?c outbuf"
  let ?net2 = "net((s, d) := (if unat n' < unat n
                   then [Payload ?dt (drop (unat n') ?sent)] else []))"
  have t: "take ?m ?sent = take ?c buffer"
    by (simp add: m min.commute min.left_commute)
  have c1: "min ?m (length ?sent) = ?c"
    using assms(4) by (simp add: m)
  have n2: "?net1((s, this_rank gd) :=
                 (if ?m < length ?sent then Payload ?dt (drop ?m ?sent) # [] else []))
            = ?net2"
  proof (cases "unat n' < unat n")
    case True
    then have "?m = unat n'" by (simp add: hv)
    then show ?thesis using True assms(4,9) by simp
  next
    case False
    then have "?m = unat n" by (simp add: hv)
    then show ?thesis using False assms(4,9) by simp
  qed
  have r: "mpi_receive True gd s n' ty outbuf ?net1 = (?net2, Inr ?out)"
    using r0 by (simp only: n2 t c1)
  have l: "length ?out = length outbuf"
    using assms(4,6) by simp
  have e: "\<forall>i < ?c. ?out ! i = buffer ! i"
    using assms(4) by (simp add: nth_append)
  from s1 hv r l e
  show "\<exists>net1 net2 out.
       mpi_send True gs d n ty buffer net = (net1, Inr ())
     \<and> net1 = net((s, d) :=
                  [Header (unsigned_at n), Payload (datatype_of ty) (take (unat n) buffer)])
     \<and> unat (unsigned_at n) = unat n
     \<and> mpi_receive True gd s n' ty outbuf net1 = (net2, Inr out)
     \<and> net2 = net((s, d) :=
                  (if unat n' < unat n
                   then [Payload (datatype_of ty) (drop (unat n') (take (unat n) buffer))]
                   else []))
     \<and> out = take (min (unat n) (unat n')) buffer @ drop (min (unat n) (unat n')) outbuf
     \<and> length out = length outbuf
     \<and> (\<forall>i < min (unat n) (unat n'). out ! i = buffer ! i)"
    by blast
next
  fix k :: "32 word" and sent :: "'a list"
  assume a: "min (unat n') (unat k) < 2 ^ 31
          \<and> min (min (unat n') (unat k)) (length sent) \<le> length outbuf"
  let ?netk = "net((s, d) := [Header k, Payload (datatype_of ty) sent])"
  have q: "?netk (s, this_rank gd) = Header k # Payload (datatype_of ty) sent # []"
    using assms(9) by simp
  from a have a1: "min (unat n') (unat k) < 2 ^ 31"
    and a2: "min (min (unat n') (unat k)) (length sent) \<le> length outbuf"
    by simp_all
  show "snd (mpi_receive True gd s n' ty outbuf ?netk)
          = Inr (take (min (unat n') (unat k)) sent
                   @ drop (min (min (unat n') (unat k)) (length sent)) outbuf)"
    by (simp only: receive_matched
          [of n' s gd ty ?netk k "datatype_of ty" sent "[]" "min (unat n') (unat k)" outbuf,
           OF assms(5) assms(10) assms(1) q refl a1 a2] snd_conv)
next
  show "mpi_send False gs d n ty buffer net = (net, Inr ())"
    using assms(2,8) by (rule send_without_mpi)
next
  show "mpi_receive False gd s n' ty outbuf net = (net, Inr outbuf)"
    using assms(5,10) by (rule receive_without_mpi)
qed

theorem send_receive_round_trip_witness:
  "supported_type CHR ''i'' \<and> (0 :: size_t) < 3 \<and> unat (3 :: size_t) < 2 ^ 31
   \<and> unat (3 :: size_t) \<le> length [5, 6, 7, 8 :: int]
   \<and> (0 :: size_t) < 2 \<and> min (unat (3 :: size_t)) (unat (2 :: size_t)) \<le> length [0, 0, 0 :: int]
   \<and> this_rank (rank_globals 2 1) = 1 \<and> (0 :: size_t) < comm_size (rank_globals 2 1)
   \<and> this_rank (rank_globals 2 0) = 0 \<and> (1 :: size_t) < comm_size (rank_globals 2 0)
   \<and> (no_messages :: int network) (1, 0) = []
   \<and> mpi_send True (rank_globals 2 1) 0 3 CHR ''i'' [5, 6, 7, 8 :: int] no_messages
       = (no_messages((1, 0) := [Header 3, Payload MPI_INT [5, 6, 7]]), Inr ())
   \<and> mpi_receive True (rank_globals 2 0) 1 2 CHR ''i'' [0, 0, 0 :: int]
            (no_messages((1, 0) := [Header 3, Payload MPI_INT [5, 6, 7]]))
       = (no_messages((1, 0) := [Payload MPI_INT [7]]), Inr [5, 6, 0])
   \<and> snd (mpi_receive True (rank_globals 2 0) 1 2 CHR ''i'' [0, 0, 0 :: int]
            (no_messages((1, 0) := [Header 1, Payload MPI_INT [5, 6, 7]])))
       = Inr [5, 0, 0]"
proof -
  have r: "this_rank (rank_globals 2 1) = 1" "(0 :: size_t) < comm_size (rank_globals 2 1)"
    "this_rank (rank_globals 2 0) = 0" "(1 :: size_t) < comm_size (rank_globals 2 0)"
    by (simp_all add: rank_globals_def static_init_def)
  have s: "supported_type CHR ''i''" by (simp add: supported_type_def)
  have e: "(no_messages :: int network) (1, 0) = []" by (simp add: no_messages_def)
  have u: "unsigned_at 3 = 3"
    by (rule word_unat_eq_iff [THEN iffD2]) (simp add: unat_unsigned_at)
  have d: "datatype_of CHR ''i'' = MPI_INT" by (simp add: datatype_of_def)
  note t = send_receive_round_trip
    [of "CHR ''i''" 3 "[5, 6, 7, 8 :: int]" 2 "[0, 0, 0]" "rank_globals 2 1" 1 0
        "rank_globals 2 0" no_messages, OF s _ _ _ _ _ r(1) r(2) r(3) r(4) e]
  have t1: "\<exists>net1 net2 out.
       mpi_send True (rank_globals 2 1) 0 3 CHR ''i'' [5, 6, 7, 8 :: int] no_messages
         = (net1, Inr ())
     \<and> net1 = no_messages((1, 0) := [Header 3, Payload MPI_INT [5, 6, 7]])
     \<and> mpi_receive True (rank_globals 2 0) 1 2 CHR ''i'' [0, 0, 0 :: int] net1 = (net2, Inr out)
     \<and> net2 = no_messages((1, 0) := [Payload MPI_INT [7]])
     \<and> out = [5, 6, 0]"
    using t [THEN conjunct1] by (simp add: u d)
  have t2: "snd (mpi_receive True (rank_globals 2 0) 1 2 CHR ''i'' [0, 0, 0 :: int]
            (no_messages((1, 0) := [Header 1, Payload MPI_INT [5, 6, 7]])))
       = Inr [5, 0, 0]"
    using t [THEN conjunct2, THEN conjunct1, THEN spec, of 1, THEN spec, of "[5, 6, 7]"]
    by (simp add: d)
  from t1 t2 show ?thesis
    using r s e by auto
qed

text \<open>
  C5 as stated fails in a build without \<^verbatim>\<open>USE_MPI\<close>: the send transmits nothing and the
  receive leaves the buffer as it was.
\<close>

theorem round_trip_without_mpi_counterexample:
  "supported_type CHR ''i''
   \<and> mpi_send False (rank_globals 1 0) 0 1 CHR ''i'' [7 :: int] no_messages
       = (no_messages, Inr ())
   \<and> mpi_receive False (rank_globals 1 0) 0 1 CHR ''i'' [0 :: int] no_messages
       = (no_messages, Inr [0])"
  by (simp add: mpi_send_def mpi_receive_def rank_globals_def static_init_def
      supported_type_def)

section \<open>Matrix handles\<close>

lemma petsc_set_outside_range:
  assumes "p < pm_max_row m" and "q < pm_max_col m"
    and "\<not> (pm_first m \<le> p \<and> p < pm_last m)"
  shows "mpi_matrix_set MatSetValue MATRIX_BOUND_CHECK g (Petsc_matrix m) p q x
           = Inr (Petsc_matrix m)"
  using assms by (cases "pm_first m \<le> p") simp_all

lemma unat_word_of_int64:
  assumes "0 \<le> p" and "nat p < 18446744073709551616"
  shows "unat (word_of_int p :: 64 word) = nat p"
proof -
  have "(word_of_int p :: 64 word) = of_nat (nat p)"
    using assms(1) by (simp only: word_of_int_nat)
  then have "unat (word_of_int p :: 64 word) = nat p mod 2 ^ LENGTH(64)"
    by (simp only: unat_of_nat)
  also have "... = nat p" using assms(2) by simp
  finally show ?thesis .
qed

text \<open>
  The offset of an entry of an allocated dense matrix: the \<^verbatim>\<open>size_t\<close> arithmetic does
  not wrap and the offset is inside the buffer.
\<close>

lemma dense_offset:
  fixes R C :: "64 word"
  assumes "0 \<le> p" and "0 \<le> q" and "p < int (unat R)" and "q < int (unat C)"
    and "unat R * unat C < 2 ^ 64"
  shows "unat (word_of_int p * C + word_of_int q :: 64 word) = nat p * unat C + nat q"
    and "nat p * unat C + nat q < unat R * unat C"
    and "(word_of_int p :: 64 word) < R" and "(word_of_int q :: 64 word) < C"
proof -
  have pn: "nat p < unat R" and qn: "nat q < unat C" using assms by linarith+
  have "nat p * unat C + nat q < nat p * unat C + unat C" using qn by simp
  also have "... = (nat p + 1) * unat C" by simp
  also have "... \<le> unat R * unat C" using pn by (intro mult_le_mono1) simp
  finally show b: "nat p * unat C + nat q < unat R * unat C" .
  have lt: "nat p * unat C + nat q < 18446744073709551616" using b assms(5) by simp
  have "nat p < 18446744073709551616" using pn unat_lt64 [of R] by linarith
  then have wp: "unat (word_of_int p :: 64 word) = nat p"
    by (rule unat_word_of_int64 [OF assms(1)])
  have "nat q < 18446744073709551616" using qn unat_lt64 [of C] by linarith
  then have wq: "unat (word_of_int q :: 64 word) = nat q"
    by (rule unat_word_of_int64 [OF assms(2)])
  show "(word_of_int p :: 64 word) < R" using pn by (simp add: word_less_nat_alt wp)
  show "(word_of_int q :: 64 word) < C" using qn by (simp add: word_less_nat_alt wq)
  have "unat (word_of_int p :: 64 word) * unat C < 18446744073709551616"
    using lt by (simp add: wp)
  then have m: "unat (word_of_int p * C :: 64 word) = nat p * unat C"
    by (simp add: unat_mult64 wp)
  have "unat (word_of_int p * C :: 64 word) + unat (word_of_int q :: 64 word)
          < 18446744073709551616"
    using lt by (simp add: m wq)
  then show "unat (word_of_int p * C + word_of_int q :: 64 word) = nat p * unat C + nat q"
    by (simp add: unat_add64 m wq)
qed

lemma dense_set_takes_effect:
  assumes "0 \<le> p" and "0 \<le> q" and "p < int (unat (max_row (lm_data m)))"
    and "q < int (unat (max_col (lm_data m)))" and "matrix_allocated (lm_data m)"
  shows "\<exists>d. mpi_matrix_set MatSetValue MATRIX_BOUND_CHECK g (Local_matrix m) p q x
               = Inr (Local_matrix (m\<lparr>lm_data := d\<rparr>))
           \<and> data d = (data (lm_data m))[nat p * unat (max_col (lm_data m)) + nat q := x]
           \<and> max_row d = max_row (lm_data m) \<and> max_col d = max_col (lm_data m)
           \<and> matrix_get MATRIX_BOUND_CHECK d (word_of_int p) (word_of_int q) = Inr x"
proof -
  let ?d = "lm_data m"
  have al: "length (data ?d) = unat (max_row ?d) * unat (max_col ?d)"
    and fit: "unat (max_row ?d) * unat (max_col ?d) < 2 ^ 64"
    using assms(5) by (simp_all add: matrix_allocated_def)
  note off = dense_offset [OF assms(1,2,3,4) fit]
  let ?new = "(lm_data m)\<lparr>data := (data ?d)[nat p * unat (max_col ?d) + nat q := x]\<rparr>"
  have set: "matrix_set MATRIX_BOUND_CHECK ?d (word_of_int p) (word_of_int q) x = Inr ?new"
    using off al by (simp add: matrix_set_def Let_def)
  have get: "matrix_get MATRIX_BOUND_CHECK ?new (word_of_int p) (word_of_int q) = Inr x"
    using off al by (simp add: matrix_get_def Let_def)
  have "mpi_matrix_set MatSetValue MATRIX_BOUND_CHECK g (Local_matrix m) p q x
               = Inr (Local_matrix (m\<lparr>lm_data := ?new\<rparr>))
           \<and> data ?new = (data (lm_data m))[nat p * unat (max_col (lm_data m)) + nat q := x]
           \<and> max_row ?new = max_row (lm_data m) \<and> max_col ?new = max_col (lm_data m)
           \<and> matrix_get MATRIX_BOUND_CHECK ?new (word_of_int p) (word_of_int q) = Inr x"
    using set get by simp
  then show ?thesis by (rule exI)
qed

text \<open>
  C6. With the distributed backend, a call of \<^verbatim>\<open>mpi_matrix_set\<close> whose row \<open>p\<close> is outside
  the ownership range \<open>[first, last)\<close> of the caller (and whose indices pass the two
  assertions) returns the handle as it was, whatever the backend call would do: the
  backend is not called. With the dense backend there is no ownership range and the call
  stores the value: for every entry of the allocated matrix the buffer is updated at
  the offset of the entry, which then reads back as the value stored.
\<close>

theorem matrix_set_ownership:
  "(p < pm_max_row m \<and> q < pm_max_col m \<and> \<not> (pm_first m \<le> p \<and> p < pm_last m) \<longrightarrow>
      mpi_matrix_set MatSetValue MATRIX_BOUND_CHECK g (Petsc_matrix m) p q x
        = Inr (Petsc_matrix m))
   \<and> (0 \<le> p \<and> 0 \<le> q \<and> p < int (unat (max_row (lm_data lm)))
        \<and> q < int (unat (max_col (lm_data lm))) \<and> matrix_allocated (lm_data lm) \<longrightarrow>
      (\<exists>d. mpi_matrix_set MatSetValue MATRIX_BOUND_CHECK g (Local_matrix lm) p q x
               = Inr (Local_matrix (lm\<lparr>lm_data := d\<rparr>))
           \<and> data d = (data (lm_data lm))[nat p * unat (max_col (lm_data lm)) + nat q := x]
           \<and> max_row d = max_row (lm_data lm) \<and> max_col d = max_col (lm_data lm)
           \<and> matrix_get MATRIX_BOUND_CHECK d (word_of_int p) (word_of_int q) = Inr x))"
proof (intro conjI impI)
  assume a: "p < pm_max_row m \<and> q < pm_max_col m \<and> \<not> (pm_first m \<le> p \<and> p < pm_last m)"
  from a have a1: "p < pm_max_row m" and a2: "q < pm_max_col m"
    and a3: "\<not> (pm_first m \<le> p \<and> p < pm_last m)"
    by blast+
  show "mpi_matrix_set MatSetValue MATRIX_BOUND_CHECK g (Petsc_matrix m) p q x
        = Inr (Petsc_matrix m)"
    by (rule petsc_set_outside_range [OF a1 a2 a3])
next
  assume b: "0 \<le> p \<and> 0 \<le> q \<and> p < int (unat (max_row (lm_data lm)))
        \<and> q < int (unat (max_col (lm_data lm))) \<and> matrix_allocated (lm_data lm)"
  from b have b1: "0 \<le> p" and b2: "0 \<le> q" and b3: "p < int (unat (max_row (lm_data lm)))"
    and b4: "q < int (unat (max_col (lm_data lm)))" and b5: "matrix_allocated (lm_data lm)"
    by blast+
  show "\<exists>d. mpi_matrix_set MatSetValue MATRIX_BOUND_CHECK g (Local_matrix lm) p q x
               = Inr (Local_matrix (lm\<lparr>lm_data := d\<rparr>))
           \<and> data d = (data (lm_data lm))[nat p * unat (max_col (lm_data lm)) + nat q := x]
           \<and> max_row d = max_row (lm_data lm) \<and> max_col d = max_col (lm_data lm)
           \<and> matrix_get MATRIX_BOUND_CHECK d (word_of_int p) (word_of_int q) = Inr x"
    by (rule dense_set_takes_effect [OF b1 b2 b3 b4 b5])
qed

theorem matrix_set_ownership_witness:
  "((1 :: int) < 4 \<and> (0 :: int) < 4 \<and> \<not> ((2 :: int) \<le> 1 \<and> (1 :: int) < 4))
   \<and> mpi_matrix_set (\<lambda>d p q x. (0, d)) False (rank_globals 2 0)
      (Petsc_matrix \<lparr>pm_data = (), pm_max_row = 4, pm_max_col = 4, pm_first = 2, pm_last = 4,
                     pm_solver = []\<rparr>) 1 0 (5 :: int)
     = Inr (Petsc_matrix \<lparr>pm_data = (), pm_max_row = 4, pm_max_col = 4, pm_first = 2,
                          pm_last = 4, pm_solver = []\<rparr>)
   \<and> matrix_allocated \<lparr>data = [0, 0, 0, 0 :: int], max_row = 2, max_col = 2, use_omp = 0\<rparr>
   \<and> mpi_matrix_set (\<lambda>d p q x. (0, d)) False (rank_globals 2 0)
      (Local_matrix \<lparr>lm_data = \<lparr>data = [0, 0, 0, 0], max_row = 2, max_col = 2, use_omp = 0\<rparr>,
                     lm_eigenval = None\<rparr> :: (unit, int) mpi_matrix) 1 0 5
     = Inr (Local_matrix \<lparr>lm_data = \<lparr>data = [0, 0, 5, 0], max_row = 2, max_col = 2,
                                       use_omp = 0\<rparr>,
                          lm_eigenval = None\<rparr>)"
proof -
  let ?pm = "\<lparr>pm_data = (), pm_max_row = 4, pm_max_col = 4, pm_first = 2, pm_last = 4,
              pm_solver = [] :: int eps_call list\<rparr>"
  let ?d = "\<lparr>data = [0, 0, 0, 0 :: int], max_row = 2, max_col = 2, use_omp = 0\<rparr>"
  let ?lm = "\<lparr>lm_data = ?d, lm_eigenval = None\<rparr>"
  let ?set = "\<lambda>(d :: unit) (p :: int) (q :: int) (x :: int). (0 :: int, d)"
  note t = matrix_set_ownership [of 1 ?pm 0 ?set False "rank_globals 2 0" 5 ?lm]
  have h1: "1 < pm_max_row ?pm \<and> 0 < pm_max_col ?pm \<and> \<not> (pm_first ?pm \<le> 1 \<and> 1 < pm_last ?pm)"
    by simp
  have al: "matrix_allocated ?d"
    by (simp add: matrix_allocated_def)
  have h2: "(0 :: int) \<le> 1 \<and> (0 :: int) \<le> 0 \<and> 1 < int (unat (max_row (lm_data ?lm)))
        \<and> 0 < int (unat (max_col (lm_data ?lm))) \<and> matrix_allocated (lm_data ?lm)"
    using al by simp
  have c1: "mpi_matrix_set ?set False (rank_globals 2 0) (Petsc_matrix ?pm) 1 0 5
              = Inr (Petsc_matrix ?pm)"
    by (rule t [THEN conjunct1, THEN mp, OF h1])
  obtain d where c2: "mpi_matrix_set ?set False (rank_globals 2 0) (Local_matrix ?lm) 1 0 5
               = Inr (Local_matrix (?lm\<lparr>lm_data := d\<rparr>))"
    and d: "data d = (data (lm_data ?lm))[nat 1 * unat (max_col (lm_data ?lm)) + nat 0 := 5]"
       "max_row d = max_row (lm_data ?lm)" "max_col d = max_col (lm_data ?lm)"
    using t [THEN conjunct2, THEN mp, OF h2] by blast
  from c2 have "d = \<lparr>data = [0, 0, 5, 0], max_row = 2, max_col = 2, use_omp = 0\<rparr>"
    by (auto simp: matrix_set_def Let_def)
  with c2 have c2': "mpi_matrix_set ?set False (rank_globals 2 0) (Local_matrix ?lm) 1 0 5
               = Inr (Local_matrix \<lparr>lm_data = \<lparr>data = [0, 0, 5, 0], max_row = 2, max_col = 2,
                                                    use_omp = 0\<rparr>,
                                     lm_eigenval = None\<rparr>)"
    by simp
  have n: "(1 :: int) < 4 \<and> (0 :: int) < 4 \<and> \<not> ((2 :: int) \<le> 1 \<and> (1 :: int) < 4)"
    by simp
  from n c1 al c2' show ?thesis by blast
qed

section \<open>Eigensolver dispatch\<close>

lemma eps_calls_all_succeed:
  assumes "\<forall>calls. backend mat calls = 0"
  shows "eps_calls backend g mat made cs = Inr (made @ cs)"
  using assms
  by (induction cs arbitrary: made) (simp_all add: CHECK_PETSC_ERROR_def)

text \<open>A backend call that fails is fatal: the only way \<open>eps_calls\<close> halts.\<close>

lemma eps_calls_failure:
  assumes "eps_calls backend g mat made cs = Inl e"
  shows "\<exists>name code. e = Exit_failure (Backend_failed (this_rank g) name code) \<and> code \<noteq> 0"
  using assms
  by (induction cs arbitrary: made)
     (auto simp: CHECK_PETSC_ERROR_def split: if_splits sum.splits)

text \<open>A NaN tolerance fails the assertion \<^verbatim>\<open>tol == tol\<close>, with either backend.\<close>

lemma nan_tolerance_is_rejected:
  "mpi_matrix_sparse_eigen backend converged lib g m n max_step NaN up = Inl Assertion_failed"
  by (cases m) simp_all

lemma petsc_eigen:
  assumes "0 < n" and "0 < max_step" and "tol \<noteq> NaN" and "2 * n + 10 \<le> 2147483647"
    and "\<forall>calls. backend (pm_data m) calls = 0"
  shows "mpi_matrix_sparse_eigen backend converged lib g (Petsc_matrix m) n max_step tol up
     = Inr (Petsc_matrix (m\<lparr>pm_solver :=
              [EPSCreate, EPSSetOperators, EPSSetDimensions n (2 * n + 10),
               EPSSetProblemType EPS_HEP,
               EPSSetWhichEigenpairs (if up then EPS_LARGEST_REAL else EPS_SMALLEST_REAL),
               EPSSetType EPSKRYLOVSCHUR, EPSSetTolerances tol max_step,
               EPSSolve, EPSGetConverged]\<rparr>),
            converged (pm_data m)
              [EPSCreate, EPSSetOperators, EPSSetDimensions n (2 * n + 10),
               EPSSetProblemType EPS_HEP,
               EPSSetWhichEigenpairs (if up then EPS_LARGEST_REAL else EPS_SMALLEST_REAL),
               EPSSetType EPSKRYLOVSCHUR, EPSSetTolerances tol max_step,
               EPSSolve, EPSGetConverged])"
  using assms(1,2,3,4)
  by (simp add: eps_calls_all_succeed [of backend "pm_data m", OF assms(5)] Let_def
      del: eps_calls.simps)

text \<open>
  The dense build, for arguments that pass the assertions: the function is the call of
  the wrapper with job \<open>v\<close>, triangle \<open>l\<close> and the row count as order and leading
  dimension. The arguments \<open>n\<close>, \<open>max_step\<close>, \<open>tol\<close> and \<open>up\<close> do not occur in it.
\<close>

lemma local_eigen:
  assumes "0 < n" and "0 < max_step" and "tol \<noteq> NaN"
  shows "mpi_matrix_sparse_eigen backend converged lib g (Local_matrix m) n max_step tol up
     = (case call_dsyev lib (CHR ''v'') (CHR ''l'') (int_of_size_t (max_row (lm_data m)))
               (data (lm_data m)) (int_of_size_t (max_row (lm_data m))) of
          Inl e \<Rightarrow> Inl e
        | Inr (a, w) \<Rightarrow>
            Inr (Local_matrix (m\<lparr>lm_data := (lm_data m)\<lparr>data := a\<rparr>, lm_eigenval := Some w\<rparr>),
                 int_of_size_t (max_row (lm_data m))))"
  using assms
  by (simp add: matrix_symm_eigen_def matrix_rows_def split: sum.splits prod.splits)

lemma local_eigen_succeeds:
  assumes "0 < n" and "0 < max_step" and "tol \<noteq> NaN"
    and "unat (max_row (lm_data m)) < 2 ^ 31"
    and "call_dsyev lib (CHR ''v'') (CHR ''l'') (int (unat (max_row (lm_data m))))
           (data (lm_data m)) (int (unat (max_row (lm_data m)))) = Inr (a, w)"
  shows "mpi_matrix_sparse_eigen backend converged lib g (Local_matrix m) n max_step tol up
     = Inr (Local_matrix (m\<lparr>lm_data := (lm_data m)\<lparr>data := a\<rparr>, lm_eigenval := Some w\<rparr>),
            int (unat (max_row (lm_data m))))"
  unfolding local_eigen [OF assms(1,2,3)] int_of_size_t_small [OF assms(4)]
  using assms(5) by simp

text \<open>A decomposition that fails is fatal, as a backend call of the distributed build is.\<close>

lemma local_eigen_fails:
  assumes "0 < n" and "0 < max_step" and "tol \<noteq> NaN"
    and "call_dsyev lib (CHR ''v'') (CHR ''l'') (int_of_size_t (max_row (lm_data m)))
           (data (lm_data m)) (int_of_size_t (max_row (lm_data m))) = Inl e"
  shows "mpi_matrix_sparse_eigen backend converged lib g (Local_matrix m) n max_step tol up
     = Inl e"
  unfolding local_eigen [OF assms(1,2,3)] using assms(4) by simp

text \<open>
  When the wrapper returns, for the call that \<^verbatim>\<open>mpi_matrix_sparse_eigen\<close> makes, in
  each of the three builds; and the error code that makes it exit.
\<close>

lemma call_dsyev_lapacke:
  "call_dsyev (LAPACKE LAPACKE_dsyev) (CHR ''v'') (CHR ''l'') r buffer r
     = (case LAPACKE_dsyev (CHR ''v'') (CHR ''l'') r buffer r of
          (info, a, w) \<Rightarrow>
            if info = 0 then Inr (a, w)
            else Inl (Exit_failure (Routine_failed ''LAPACKE_dsyev()'' info)))"
  by (simp split: prod.splits)

lemma call_dsyev_magma:
  assumes "list_all fits_int
             [2 * r, r * magma_get_dsytrd_nb r, 2 * r + r * magma_get_dsytrd_nb r, 6 * r,
              1 + 6 * r, 2 * r * r, 1 + 6 * r + 2 * r * r, 5 * r, 3 + 5 * r, r * r]"
  shows "call_dsyev (MAGMA magma_get_dsytrd_nb magma_dsyevd_gpu) (CHR ''v'') (CHR ''l'') r
           buffer r
     = (case magma_dsyevd_gpu MagmaVec MagmaLower r buffer r of
          (info, a_gpu, w, work) \<Rightarrow>
            if info = 0 then Inr (a_gpu, w)
            else Inl (Exit_failure (Routine_failed ''magma_dsyevd_gpu()'' info)))"
  using assms by (simp add: Let_def split: prod.splits)

lemma call_dsyev_gsl:
  assumes "0 < r"
  shows "call_dsyev (GSL gsl_eigen_symmv gsl_eigen_symmv_sort) (CHR ''v'') (CHR ''l'') r
           buffer r
     = (case gsl_eigen_symmv r buffer of
          (a, w, eigenvec) \<Rightarrow>
            (case gsl_eigen_symmv_sort w eigenvec of (w', eigenvec') \<Rightarrow> Inr (eigenvec', w')))"
  using assms by (simp split: prod.splits)

text \<open>
  C7. With the distributed backend, for arguments that pass the assertions and every
  backend call succeeding, \<^verbatim>\<open>mpi_matrix_sparse_eigen\<close> asks the solver for \<open>n\<close> eigenpairs
  with a subspace of dimension \<open>2 * n + 10\<close>, from the largest real end of the spectrum
  when \<open>up\<close> holds and from the smallest real end otherwise, and returns the count of
  converged eigenpairs that the backend reports. With the dense backend it decomposes
  the whole matrix through \<^verbatim>\<open>call_dsyev\<close>, job \<open>v\<close>, and, when the decomposition succeeds,
  returns the number of rows, with the eigenvectors in the buffer of the matrix and the
  eigenvalues in the handle; the outcome is the same for all values of \<open>n\<close>, \<open>max_step\<close>,
  \<open>tol\<close> and \<open>up\<close> that pass the assertions \<open>n > 0\<close>, \<open>max_step > 0\<close> and
  \<open>tol == tol\<close>, whether the decomposition succeeds or not.
\<close>

theorem eigensolver_dispatch:
  "(0 < n \<and> 0 < max_step \<and> tol \<noteq> NaN \<and> 2 * n + 10 \<le> 2147483647
      \<and> (\<forall>calls. backend (pm_data m) calls = 0) \<longrightarrow>
      mpi_matrix_sparse_eigen backend converged lib g (Petsc_matrix m) n max_step tol up
        = Inr (Petsc_matrix (m\<lparr>pm_solver :=
                 [EPSCreate, EPSSetOperators, EPSSetDimensions n (2 * n + 10),
                  EPSSetProblemType EPS_HEP,
                  EPSSetWhichEigenpairs (if up then EPS_LARGEST_REAL else EPS_SMALLEST_REAL),
                  EPSSetType EPSKRYLOVSCHUR, EPSSetTolerances tol max_step,
                  EPSSolve, EPSGetConverged]\<rparr>),
               converged (pm_data m)
                 [EPSCreate, EPSSetOperators, EPSSetDimensions n (2 * n + 10),
                  EPSSetProblemType EPS_HEP,
                  EPSSetWhichEigenpairs (if up then EPS_LARGEST_REAL else EPS_SMALLEST_REAL),
                  EPSSetType EPSKRYLOVSCHUR, EPSSetTolerances tol max_step,
                  EPSSolve, EPSGetConverged]))
   \<and> (0 < n \<and> 0 < max_step \<and> tol \<noteq> NaN
        \<and> unat (max_row (lm_data lm)) < 2 ^ 31
        \<and> call_dsyev lib (CHR ''v'') (CHR ''l'') (int (unat (max_row (lm_data lm))))
            (data (lm_data lm)) (int (unat (max_row (lm_data lm)))) = Inr (a, w) \<longrightarrow>
      mpi_matrix_sparse_eigen backend converged lib g (Local_matrix lm) n max_step tol up
        = Inr (Local_matrix
                 (lm\<lparr>lm_data := (lm_data lm)\<lparr>data := a\<rparr>, lm_eigenval := Some w\<rparr>),
               int (unat (max_row (lm_data lm)))))
   \<and> (0 < n \<and> 0 < max_step \<and> tol \<noteq> NaN \<and> 0 < n' \<and> 0 < max_step' \<and> tol' \<noteq> NaN \<longrightarrow>
      mpi_matrix_sparse_eigen backend converged lib g (Local_matrix lm) n' max_step' tol' up'
        = mpi_matrix_sparse_eigen backend converged lib g (Local_matrix lm) n max_step tol up)"
proof (intro conjI impI)
  assume "0 < n \<and> 0 < max_step \<and> tol \<noteq> NaN \<and> 2 * n + 10 \<le> 2147483647
      \<and> (\<forall>calls. backend (pm_data m) calls = 0)"
  then show "mpi_matrix_sparse_eigen backend converged lib g (Petsc_matrix m) n max_step tol up
        = Inr (Petsc_matrix (m\<lparr>pm_solver :=
                 [EPSCreate, EPSSetOperators, EPSSetDimensions n (2 * n + 10),
                  EPSSetProblemType EPS_HEP,
                  EPSSetWhichEigenpairs (if up then EPS_LARGEST_REAL else EPS_SMALLEST_REAL),
                  EPSSetType EPSKRYLOVSCHUR, EPSSetTolerances tol max_step,
                  EPSSolve, EPSGetConverged]\<rparr>),
               converged (pm_data m)
                 [EPSCreate, EPSSetOperators, EPSSetDimensions n (2 * n + 10),
                  EPSSetProblemType EPS_HEP,
                  EPSSetWhichEigenpairs (if up then EPS_LARGEST_REAL else EPS_SMALLEST_REAL),
                  EPSSetType EPSKRYLOVSCHUR, EPSSetTolerances tol max_step,
                  EPSSolve, EPSGetConverged])"
    by (intro petsc_eigen) simp_all
next
  assume a: "0 < n \<and> 0 < max_step \<and> tol \<noteq> NaN
        \<and> unat (max_row (lm_data lm)) < 2 ^ 31
        \<and> call_dsyev lib (CHR ''v'') (CHR ''l'') (int (unat (max_row (lm_data lm))))
            (data (lm_data lm)) (int (unat (max_row (lm_data lm)))) = Inr (a, w)"
  from a have a1: "0 < n" and a2: "0 < max_step" and a3: "tol \<noteq> NaN"
    and a4: "unat (max_row (lm_data lm)) < 2 ^ 31"
    and a5: "call_dsyev lib (CHR ''v'') (CHR ''l'') (int (unat (max_row (lm_data lm))))
            (data (lm_data lm)) (int (unat (max_row (lm_data lm)))) = Inr (a, w)"
    by blast+
  show "mpi_matrix_sparse_eigen backend converged lib g (Local_matrix lm) n max_step tol up
        = Inr (Local_matrix
                 (lm\<lparr>lm_data := (lm_data lm)\<lparr>data := a\<rparr>, lm_eigenval := Some w\<rparr>),
               int (unat (max_row (lm_data lm))))"
    by (rule local_eigen_succeeds [OF a1 a2 a3 a4 a5])
next
  assume b: "0 < n \<and> 0 < max_step \<and> tol \<noteq> NaN \<and> 0 < n' \<and> 0 < max_step' \<and> tol' \<noteq> NaN"
  from b have b1: "0 < n" "0 < max_step" "tol \<noteq> NaN"
    and b2: "0 < n'" "0 < max_step'" "tol' \<noteq> NaN"
    by blast+
  show "mpi_matrix_sparse_eigen backend converged lib g (Local_matrix lm) n' max_step' tol' up'
        = mpi_matrix_sparse_eigen backend converged lib g (Local_matrix lm) n max_step tol up"
    by (simp only: local_eigen [OF b1] local_eigen [OF b2])
qed

theorem eigensolver_dispatch_witness:
  "mpi_matrix_sparse_eigen (\<lambda>mat calls. 0) (\<lambda>mat calls. 2)
      (LAPACKE (\<lambda>jobz uplo k buffer lda. (0, buffer, [1, 3])))
      (rank_globals 2 0)
      (Petsc_matrix \<lparr>pm_data = (), pm_max_row = 3, pm_max_col = 3, pm_first = 0, pm_last = 2,
                     pm_solver = []\<rparr>) 3 100 (Number (0 :: int)) True
     = Inr (Petsc_matrix \<lparr>pm_data = (), pm_max_row = 3, pm_max_col = 3, pm_first = 0,
                          pm_last = 2,
                          pm_solver =
                            [EPSCreate, EPSSetOperators, EPSSetDimensions 3 16,
                             EPSSetProblemType EPS_HEP, EPSSetWhichEigenpairs EPS_LARGEST_REAL,
                             EPSSetType EPSKRYLOVSCHUR, EPSSetTolerances (Number 0) 100,
                             EPSSolve, EPSGetConverged]\<rparr>, 2)
   \<and> mpi_matrix_sparse_eigen (\<lambda>mat calls. 0) (\<lambda>mat calls. 2)
      (LAPACKE (\<lambda>jobz uplo k buffer lda. (0, buffer, [1, 3])))
      (rank_globals 2 0)
      (Local_matrix \<lparr>lm_data = \<lparr>data = [2, 1, 1, 2], max_row = 2, max_col = 2, use_omp = 0\<rparr>,
                     lm_eigenval = None\<rparr> :: (unit, int) mpi_matrix) 3 100 (Number 0) True
     = Inr (Local_matrix \<lparr>lm_data = \<lparr>data = [2, 1, 1, 2], max_row = 2, max_col = 2,
                                       use_omp = 0\<rparr>,
                          lm_eigenval = Some [1, 3]\<rparr>, 2)
   \<and> mpi_matrix_sparse_eigen (\<lambda>mat calls. 0) (\<lambda>mat calls. 2)
      (LAPACKE (\<lambda>jobz uplo k buffer lda. (0, buffer, [1, 3])))
      (rank_globals 2 0)
      (Local_matrix \<lparr>lm_data = \<lparr>data = [2, 1, 1, 2], max_row = 2, max_col = 2, use_omp = 0\<rparr>,
                     lm_eigenval = None\<rparr> :: (unit, int) mpi_matrix) 1 7 (Number 9) False
     = Inr (Local_matrix \<lparr>lm_data = \<lparr>data = [2, 1, 1, 2], max_row = 2, max_col = 2,
                                       use_omp = 0\<rparr>,
                          lm_eigenval = Some [1, 3]\<rparr>, 2)"
proof -
  let ?pm = "\<lparr>pm_data = (), pm_max_row = 3, pm_max_col = 3, pm_first = 0, pm_last = 2,
              pm_solver = [] :: int eps_call list\<rparr>"
  let ?lm = "\<lparr>lm_data = \<lparr>data = [2, 1, 1, 2 :: int], max_row = 2, max_col = 2, use_omp = 0\<rparr>,
              lm_eigenval = None\<rparr>"
  let ?lib = "LAPACKE (\<lambda>(jobz :: char) (uplo :: char) (k :: int) (buffer :: int list)
                         (lda :: int). (0 :: int, buffer, [1, 3 :: int]))"
  have h1: "(0 :: int) < 3 \<and> (0 :: int) < 100 \<and> Number (0 :: int) \<noteq> NaN
      \<and> (2 :: int) * 3 + 10 \<le> 2147483647
      \<and> (\<forall>calls :: int eps_call list. (\<lambda>mat calls. 0 :: int) (pm_data ?pm) calls = 0)"
    by simp
  have h2: "(0 :: int) < 3 \<and> (0 :: int) < 100 \<and> Number (0 :: int) \<noteq> NaN
        \<and> unat (max_row (lm_data ?lm)) < 2 ^ 31
        \<and> call_dsyev ?lib (CHR ''v'') (CHR ''l'') (int (unat (max_row (lm_data ?lm))))
            (data (lm_data ?lm)) (int (unat (max_row (lm_data ?lm)))) = Inr ([2, 1, 1, 2], [1, 3])"
    by simp
  have h3: "(0 :: int) < 3 \<and> (0 :: int) < 100 \<and> Number (0 :: int) \<noteq> NaN
        \<and> (0 :: int) < 1 \<and> (0 :: int) < 7 \<and> Number (9 :: int) \<noteq> NaN"
    by simp
  note t = eigensolver_dispatch
    [of 3 100 "Number 0" "\<lambda>mat calls. 0" ?pm "\<lambda>mat calls. 2" ?lib
        "rank_globals 2 0" True ?lm "[2, 1, 1, 2]" "[1, 3]" 1 7 "Number 9" False]
  note p = t [THEN conjunct1, THEN mp, OF h1]
  note l = t [THEN conjunct2, THEN conjunct1, THEN mp, OF h2]
  note e = t [THEN conjunct2, THEN conjunct2, THEN mp, OF h3]
  show ?thesis
    unfolding e l p by simp
qed

section \<open>Gather output\<close>

lemma upto_first: "lo < hi \<Longrightarrow> [lo..hi - 1] = lo # [lo + 1..hi - 1]"
  by (simp add: upto_rec1)

lemma upto_none: "\<not> lo < hi \<Longrightarrow> [lo..hi - 1] = []"
  by simp

lemma write_owned_done:
  "\<not> lo < hi \<Longrightarrow> write_owned VecGetValues g vec lo hi cell stream = ((cell, stream), Inr ())"
  by (subst write_owned.simps) simp

lemma send_owned_done:
  "\<not> lo < hi \<Longrightarrow>
     send_owned VecGetValues USE_MPI g vec lo hi cell net = ((net, cell), Inr ())"
  by (subst send_owned.simps) simp

lemma write_owned_ok:
  assumes "\<forall>n. fst (VecGetValues vec n) = 0" and "length cell = 1"
  shows "\<exists>cell'. length cell' = 1
       \<and> write_owned VecGetValues g vec lo hi cell (Some out)
           = ((cell', Some (out @ map (\<lambda>n. snd (VecGetValues vec n)) [lo..hi - 1])), Inr ())"
  using assms(2)
proof (induction "nat (hi - lo)" arbitrary: lo cell out)
  case 0
  then have "\<not> lo < hi" by simp
  then show ?case using 0 by (simp add: write_owned_done)
next
  case (Suc k)
  then have lt: "lo < hi" by linarith
  have k: "k = nat (hi - (lo + 1))" using Suc(2) by linarith
  obtain info x where v: "VecGetValues vec lo = (info, x)" by (cases "VecGetValues vec lo")
  with assms have i: "info = 0" by (metis fst_conv)
  have step: "write_owned VecGetValues g vec lo hi cell (Some out)
                = write_owned VecGetValues g vec (lo + 1) hi [x] (Some (out @ [x]))"
    using lt by (subst write_owned.simps) (simp add: v i CHECK_PETSC_ERROR_def fwrite_def)
  have x: "x = snd (VecGetValues vec lo)" by (simp add: v)
  show ?case
    using Suc(1) [OF k, of "[x]" "out @ [x]"]
    by (simp add: step upto_first [OF lt] x)
qed

lemma send_one_value:
  assumes "0 < comm_size g"
  shows "mpi_send True g 0 1 (CHR ''d'') [x] net
           = (net((this_rank g, 0) := net (this_rank g, 0) @ one_value_messages [x]), Inr ())"
proof -
  have s: "supported_type CHR ''d''" by (simp add: supported_type_def)
  have u: "unsigned_at 1 = 1" by (simp add: unsigned_at_def)
  have d: "datatype_of CHR ''d'' = MPI_DOUBLE" by (simp add: datatype_of_def)
  show ?thesis
    using send_supported [of 1 0 g "CHR ''d''" "[x]" net, OF _ assms s]
    by (simp add: u d one_value_messages_def)
qed

lemma one_value_messages_Cons:
  "one_value_messages (x # xs) = Header 1 # Payload MPI_DOUBLE [x] # one_value_messages xs"
  by (simp add: one_value_messages_def)

lemma one_value_messages_append:
  "one_value_messages (xs @ ys) = one_value_messages xs @ one_value_messages ys"
  by (simp add: one_value_messages_def)

lemma send_owned_ok:
  assumes "\<forall>n. fst (VecGetValues vec n) = 0" and "0 < comm_size g"
  shows "fst (fst (send_owned VecGetValues True g vec lo hi cell net))
           = net((this_rank g, 0) := net (this_rank g, 0)
                   @ one_value_messages (map (\<lambda>n. snd (VecGetValues vec n)) [lo..hi - 1]))
       \<and> snd (send_owned VecGetValues True g vec lo hi cell net) = Inr ()"
proof (induction "nat (hi - lo)" arbitrary: lo cell net)
  case 0
  then have "\<not> lo < hi" by simp
  then show ?case by (simp add: one_value_messages_def send_owned_done)
next
  case (Suc k)
  then have lt: "lo < hi" by linarith
  have k: "k = nat (hi - (lo + 1))" using Suc(2) by linarith
  obtain info x where v: "VecGetValues vec lo = (info, x)" by (cases "VecGetValues vec lo")
  with assms have i: "info = 0" by (metis fst_conv)
  let ?net1 = "net((this_rank g, 0) := net (this_rank g, 0) @ one_value_messages [x])"
  have step: "send_owned VecGetValues True g vec lo hi cell net
                = send_owned VecGetValues True g vec (lo + 1) hi [x] ?net1"
    using lt
    by (subst send_owned.simps) (simp add: v i CHECK_PETSC_ERROR_def send_one_value [OF assms(2)])
  have x: "x = snd (VecGetValues vec lo)" by (simp add: v)
  show ?case
    using Suc(1) [OF k, of "[x]" ?net1]
    by (simp add: step upto_first [OF lt] x one_value_messages_Cons one_value_messages_def)
qed

lemma drain_inbox_ok:
  assumes "from < comm_size g" and "length cell = 1"
    and "net (from, this_rank g) = one_value_messages xs"
  shows "\<exists>cell'. length cell' = 1
       \<and> drain_inbox True g from cell (Some out) net
           = ((net((from, this_rank g) := []), cell', Some (out @ xs)), Inr ())"
  using assms(2,3)
proof (induction xs arbitrary: cell out net)
  case Nil
  then have "mpi_inbox True g from net = Inr False"
    using assms(1) by (simp add: mpi_inbox_def MPI_Iprobe_def one_value_messages_def)
  moreover have "net((from, this_rank g) := []) = net"
    using Nil(2) by (auto simp: one_value_messages_def)
  ultimately show ?case
    using Nil(1) by (subst drain_inbox.simps) simp
next
  case (Cons x xs)
  let ?me = "this_rank g"
  let ?net1 = "net((from, ?me) := one_value_messages xs)"
  have q: "net (from, ?me) = Header 1 # Payload MPI_DOUBLE [x] # one_value_messages xs"
    using Cons(3) by (simp add: one_value_messages_Cons)
  have inbox: "mpi_inbox True g from net = Inr True"
    using assms(1) by (simp add: mpi_inbox_def MPI_Iprobe_def q)
  have s: "supported_type CHR ''d''" by (simp add: supported_type_def)
  have m: "(1 :: nat) = min (unat (1 :: size_t)) (unat (1 :: 32 word))" by simp
  have room: "min 1 (length [x]) \<le> length cell" using Cons(2) by simp
  from receive_matched
    [of 1 "from" g "CHR ''d''" net 1 MPI_DOUBLE "[x]" "one_value_messages xs" 1 cell,
      OF _ assms(1) s q m _ room]
  have rcv: "mpi_receive True g from 1 (CHR ''d'') cell net = (?net1, Inr [x])"
    using Cons(2) by simp
  have step: "drain_inbox True g from cell (Some out) net
                = drain_inbox True g from [x] (Some (out @ [x])) ?net1"
    by (subst drain_inbox.simps) (simp add: inbox rcv fwrite_def)
  have n1: "?net1 (from, ?me) = one_value_messages xs" by simp
  have l1: "length [x] = 1" by simp
  obtain cell' where "length cell' = 1"
    and "drain_inbox True g from [x] (Some ((out @ [x]))) ?net1
           = ((?net1((from, ?me) := []), cell', Some ((out @ [x]) @ xs)), Inr ())"
    using Cons(1) [of "[x]" ?net1 "out @ [x]", OF l1 n1] by blast
  then have "length cell' = 1
     \<and> drain_inbox True g from cell (Some out) net
           = ((net((from, this_rank g) := []), cell', Some (out @ x # xs)), Inr ())"
    by (simp add: step)
  then show ?case by (rule exI)
qed

lemma drain_ranks_done:
  "\<not> from < comm_size g \<Longrightarrow>
     drain_ranks USE_MPI g from cell stream net = ((net, cell, stream), Inr ())"
  by (subst drain_ranks.simps) (simp add: mpi_comm_size_def)

lemma drain_ranks_ok:
  assumes "\<forall>r. from \<le> r \<and> r < comm_size g \<longrightarrow> net (r, this_rank g) = one_value_messages (arrived r)"
    and "length cell = 1"
  shows "\<exists>net' cell'. length cell' = 1
       \<and> drain_ranks True g from cell (Some out) net
           = ((net', cell',
               Some (out @ concat (map (\<lambda>r. arrived (of_nat r))
                                     [unat from..<unat (comm_size g)]))), Inr ())"
  using assms
proof (induction "unat (comm_size g) - unat from" arbitrary: "from" cell out net)
  case 0
  then have "\<not> from < comm_size g" by (simp add: word_less_nat_alt)
  then show ?case using 0 by (simp add: drain_ranks_done word_less_nat_alt)
next
  case (Suc k)
  let ?me = "this_rank g"
  from Suc(2) have lt: "from < comm_size g" by (simp add: word_less_nat_alt)
  then have ult: "unat from < unat (comm_size g)" by (simp add: word_less_nat_alt)
  then have u1: "unat (from + 1) = unat from + 1"
    using unat_lt64 [of "comm_size g"] by (simp add: unat_add64)
  have k: "k = unat (comm_size g) - unat (from + 1)" using Suc(2) u1 by simp
  have q: "net (from, ?me) = one_value_messages (arrived from)"
    using Suc(3) lt by simp
  obtain cell1 where c1: "length cell1 = 1"
    and d: "drain_inbox True g from cell (Some out) net
              = ((net((from, ?me) := []), cell1, Some (out @ arrived from)), Inr ())"
    using drain_inbox_ok [of "from" g cell net "arrived from" out, OF lt Suc(4) q] by blast
  let ?net1 = "net((from, ?me) := [])"
  have step: "drain_ranks True g from cell (Some out) net
                = drain_ranks True g (from + 1) cell1 (Some (out @ arrived from)) ?net1"
    using lt by (subst drain_ranks.simps) (simp add: d mpi_comm_size_def)
  have rest: "\<forall>r. from + 1 \<le> r \<and> r < comm_size g \<longrightarrow> ?net1 (r, ?me) = one_value_messages (arrived r)"
  proof (intro allI impI)
    fix r assume r: "from + 1 \<le> r \<and> r < comm_size g"
    then have "unat from + 1 \<le> unat r" using u1 by (simp add: word_le_nat_alt)
    then have "from \<noteq> r" "from \<le> r" by (auto simp: word_le_nat_alt)
    then show "?net1 (r, ?me) = one_value_messages (arrived r)"
      using Suc(3) r by simp
  qed
  have up: "[unat from..<unat (comm_size g)] = unat from # [unat (from + 1)..<unat (comm_size g)]"
    using ult u1 by (simp add: upt_conv_Cons)
  obtain net' cell' where "length cell' = 1"
    and "drain_ranks True g (from + 1) cell1 (Some (out @ arrived from)) ?net1
           = ((net', cell',
               Some ((out @ arrived from) @ concat (map (\<lambda>r. arrived (of_nat r))
                                     [unat (from + 1)..<unat (comm_size g)]))), Inr ())"
    using Suc(1) [of "from + 1" ?net1 cell1 "out @ arrived from", OF k rest c1] by blast
  then show ?case by (simp add: step up)
qed

lemma owned_values_none:
  "pv_last v \<le> n_min \<Longrightarrow> owned_values VecGetValues v n_min n_max = []"
  by (simp add: owned_values_def owned_indices_def)

text \<open>
  C8. In a build with the distributed backend and MPI, for a call of
  \<^verbatim>\<open>mpi_vector_write\<close> whose assertions hold and whose backend reads succeed: a
  non-root process appends to its channel to rank 0, for each element it owns in
  \<open>[n_min, n_max)\<close> and by ascending index, one message with that single value, and
  writes nothing; the root, when the channel from each rank \<open>r\<close> holds the one-value
  messages \<open>arrived r\<close>, appends to the stream its own elements of the range by ascending
  index and then what arrived from rank 1, from rank 2, and so on up to the last rank,
  each in the order sent.
\<close>

theorem gather_output_order:
  assumes "- 1 < n_min" and "n_min < n_max" and "n_max < pv_length v"
    and "\<forall>n. fst (VecGetValues (pv_data v) n) = 0"
  shows "(this_rank g \<noteq> 0 \<and> 0 < comm_size g \<longrightarrow>
            mpi_vector_write VecGetValues True g (Petsc_vector v) n_min n_max cell stream net
              = ((net((this_rank g, 0) := net (this_rank g, 0)
                       @ one_value_messages (owned_values VecGetValues v n_min n_max)),
                  stream), Inr ()))
       \<and> (this_rank g = 0 \<and> 0 < comm_size g \<and> length cell = 1
            \<and> (\<forall>r. 1 \<le> r \<and> r < comm_size g \<longrightarrow> net (r, 0) = one_value_messages (arrived r)) \<longrightarrow>
            (\<exists>net'. mpi_vector_write VecGetValues True g (Petsc_vector v) n_min n_max cell
                      (Some out) net
              = ((net', Some (out @ owned_values VecGetValues v n_min n_max
                               @ concat (map (\<lambda>r. arrived (of_nat r))
                                           [1..<unat (comm_size g)]))),
                 Inr ())))"
proof (intro conjI impI)
  assume a: "this_rank g \<noteq> 0 \<and> 0 < comm_size g"
  show "mpi_vector_write VecGetValues True g (Petsc_vector v) n_min n_max cell stream net
              = ((net((this_rank g, 0) := net (this_rank g, 0)
                       @ one_value_messages (owned_values VecGetValues v n_min n_max)),
                  stream), Inr ())"
  proof (cases "pv_last v \<le> n_min")
    case True
    then show ?thesis
      using assms(1,2,3) a by (simp add: mpi_rank_def owned_values_none one_value_messages_def)
  next
    case False
    obtain net' cell' r where s: "send_owned VecGetValues True g (pv_data v)
                   (max n_min (pv_first v)) (min n_max (pv_last v)) cell net = ((net', cell'), r)"
      by (metis surj_pair)
    from send_owned_ok [of VecGetValues "pv_data v" g "max n_min (pv_first v)"
          "min n_max (pv_last v)" cell net] assms(4) a s
    have "net' = net((this_rank g, 0) := net (this_rank g, 0)
                       @ one_value_messages (owned_values VecGetValues v n_min n_max))"
      and "r = Inr ()"
      by (simp_all add: owned_values_def owned_indices_def)
    then show ?thesis
      using assms(1,2,3) a False s by (simp add: mpi_rank_def)
  qed
next
  assume a: "this_rank g = 0 \<and> 0 < comm_size g \<and> length cell = 1
            \<and> (\<forall>r. 1 \<le> r \<and> r < comm_size g \<longrightarrow> net (r, 0) = one_value_messages (arrived r))"
  let ?own = "owned_values VecGetValues v n_min n_max"
  let ?rest = "concat (map (\<lambda>r. arrived (of_nat r)) [1..<unat (comm_size g)])"
  have ch: "\<forall>r. 1 \<le> r \<and> r < comm_size g \<longrightarrow> net (r, this_rank g) = one_value_messages (arrived r)"
    using a by simp
  have drain: "\<And>c o'. length c = 1 \<Longrightarrow>
      \<exists>net' c'. drain_ranks True g 1 c (Some o') net = ((net', c', Some (o' @ ?rest)), Inr ())"
  proof -
    fix c :: "'b list" and o' assume "length c = 1"
    from drain_ranks_ok [of 1 g net arrived c o', OF ch this]
    show "\<exists>net' c'. drain_ranks True g 1 c (Some o') net = ((net', c', Some (o' @ ?rest)), Inr ())"
      by auto
  qed
  show "\<exists>net'. mpi_vector_write VecGetValues True g (Petsc_vector v) n_min n_max cell
                      (Some out) net
              = ((net', Some (out @ ?own @ ?rest)), Inr ())"
  proof (cases "n_min < pv_last v")
    case True
    obtain cell1 where c1: "length cell1 = 1"
      and w: "write_owned VecGetValues g (pv_data v) (max n_min (pv_first v))
                (min n_max (pv_last v)) cell (Some out) = ((cell1, Some (out @ ?own)), Inr ())"
      using write_owned_ok [of VecGetValues "pv_data v" cell g "max n_min (pv_first v)"
          "min n_max (pv_last v)" out] assms(4) a
      by (auto simp: owned_values_def owned_indices_def)
    show ?thesis
    proof (cases "comm_size g = 1")
      case True
      then show ?thesis
        using assms(1,2,3) a \<open>n_min < pv_last v\<close> w
        by (simp add: mpi_rank_def mpi_comm_size_def)
    next
      case False
      obtain net' c' where "drain_ranks True g 1 cell1 (Some (out @ ?own)) net
                               = ((net', c', Some ((out @ ?own) @ ?rest)), Inr ())"
        using drain [OF c1] by blast
      then show ?thesis
        using assms(1,2,3) a \<open>n_min < pv_last v\<close> w False
        by (simp add: mpi_rank_def mpi_comm_size_def)
    qed
  next
    case False
    then have own: "?own = []" by (simp add: owned_values_none)
    obtain net' c' where "drain_ranks True g 1 cell (Some out) net
                               = ((net', c', Some (out @ ?rest)), Inr ())"
      using drain [of cell out] a by blast
    then show ?thesis
      using assms(1,2,3) a False own by (simp add: mpi_rank_def)
  qed
qed

theorem gather_output_order_witness:
  "(- 1 :: int) < 0 \<and> (0 :: int) < 9 \<and> (9 :: int) < 10
   \<and> (\<forall>n :: int. fst ((\<lambda>(vec :: unit) n. (0 :: int, 100 + n)) () n) = 0)
   \<and> this_rank (rank_globals 2 1) \<noteq> 0 \<and> 0 < comm_size (rank_globals 2 1)
   \<and> mpi_vector_write (\<lambda>vec n. (0, 100 + n)) True (rank_globals 2 1)
        (Petsc_vector \<lparr>pv_data = (), pv_length = 10, pv_first = 5, pv_last = 10\<rparr>)
        0 9 [0] None no_messages
       = ((no_messages((1, 0) := one_value_messages [105, 106, 107, 108]), None), Inr ())
   \<and> this_rank (rank_globals 2 0) = 0 \<and> 0 < comm_size (rank_globals 2 0)
   \<and> length [0 :: int] = 1
   \<and> (\<exists>net'. mpi_vector_write (\<lambda>vec n. (0, 100 + n)) True (rank_globals 2 0)
        (Petsc_vector \<lparr>pv_data = (), pv_length = 10, pv_first = 0, pv_last = 5\<rparr>)
        0 9 [0] (Some []) (no_messages((1, 0) := one_value_messages [105, 106, 107, 108]))
       = ((net', Some [100, 101, 102, 103, 104, 105, 106, 107, 108]), Inr ()))"
proof -
  let ?get = "\<lambda>(vec :: unit) (n :: int). (0 :: int, 100 + n)"
  let ?v0 = "\<lparr>pv_data = (), pv_length = 10, pv_first = 0, pv_last = 5\<rparr>"
  let ?v1 = "\<lparr>pv_data = (), pv_length = 10, pv_first = 5, pv_last = 10\<rparr>"
  let ?net = "(no_messages :: int network)((1, 0) := one_value_messages [105, 106, 107, 108])"
  have a: "(- 1 :: int) < 0" "(0 :: int) < 9" "9 < pv_length ?v1" "9 < pv_length ?v0"
    by simp_all
  have g1: "\<forall>n. fst (?get (pv_data ?v1) n) = 0" and g0: "\<forall>n. fst (?get (pv_data ?v0) n) = 0"
    by simp_all
  have r1: "this_rank (rank_globals 2 1) \<noteq> 0 \<and> 0 < comm_size (rank_globals 2 1)"
    by (simp add: rank_globals_def static_init_def)
  have r1': "this_rank (rank_globals 2 1) = 1"
    by (simp add: rank_globals_def static_init_def)
  have c0: "comm_size (rank_globals 2 0) = 2"
    by (simp add: rank_globals_def static_init_def)
  have one: "\<And>r :: size_t. 1 \<le> r \<and> r < 2 \<Longrightarrow> r = 1"
  proof -
    fix r :: size_t
    assume "1 \<le> r \<and> r < 2"
    then have "1 \<le> unat r" and "unat r < 2"
      by (simp_all add: word_le_nat_alt word_less_nat_alt)
    then have "unat r = unat (1 :: size_t)" by simp
    then show "r = 1" by (simp only: word_unat_eq_iff)
  qed
  have r0: "this_rank (rank_globals 2 0) = 0 \<and> 0 < comm_size (rank_globals 2 0)
            \<and> length [0 :: int] = 1
            \<and> (\<forall>r. 1 \<le> r \<and> r < comm_size (rank_globals 2 0) \<longrightarrow>
                   ?net (r, 0) = one_value_messages ((\<lambda>r. [105, 106, 107, 108]) r))"
    using one by (auto simp: rank_globals_def static_init_def)
  have o1: "owned_values ?get ?v1 0 9 = [105, 106, 107, 108]"
    by (simp add: owned_values_def owned_indices_def upto_rec1)
  have o0: "owned_values ?get ?v0 0 9 = [100, 101, 102, 103, 104]"
    by (simp add: owned_values_def owned_indices_def upto_rec1)
  have e: "(no_messages :: int network) (1, 0) = []"
    by (simp add: no_messages_def)
  have u: "[Suc 0..<unat (comm_size (rank_globals 2 0))] = [Suc 0]"
    by (simp add: c0 upt_conv_Cons)
  note s = gather_output_order
    [of 0 9 ?v1 ?get "rank_globals 2 1" "[0]" None no_messages "\<lambda>r. []" "[]",
     OF a(1) a(2) a(3) g1, THEN conjunct1, THEN mp, OF r1]
  note t = gather_output_order
    [of 0 9 ?v0 ?get "rank_globals 2 0" "[0]" None ?net "\<lambda>r. [105, 106, 107, 108]" "[]",
     OF a(1) a(2) a(4) g0, THEN conjunct2, THEN mp, OF r0]
  have s': "mpi_vector_write ?get True (rank_globals 2 1) (Petsc_vector ?v1) 0 9 [0] None
              no_messages
            = ((?net, None), Inr ())"
    using s by (simp add: o1 r1' e del: mpi_vector_write.simps)
  have t': "\<exists>net'. mpi_vector_write ?get True (rank_globals 2 0) (Petsc_vector ?v0) 0 9 [0]
              (Some []) ?net
            = ((net', Some [100, 101, 102, 103, 104, 105, 106, 107, 108]), Inr ())"
    using t by (simp add: o0 u del: mpi_vector_write.simps)
  have misc: "(- 1 :: int) < 0 \<and> (0 :: int) < 9 \<and> (9 :: int) < 10
              \<and> (\<forall>n. fst (?get () n) = 0)"
    by simp
  have r0': "this_rank (rank_globals 2 0) = 0 \<and> 0 < comm_size (rank_globals 2 0)
             \<and> length [0 :: int] = 1"
    using r0 by blast
  from misc r1 s' r0' t' show ?thesis
    by blast
qed

text \<open>
  The dense build writes \<open>n_max\<close> elements starting at element \<open>n_min\<close>, whenever the
  buffer has that many.
\<close>

lemma local_write:
  assumes "- 1 < n_min" "n_min < n_max" "n_max < lv_length v"
    "nat n_min + nat n_max \<le> length (lv_data v)"
  shows "mpi_vector_write VecGetValues USE_MPI g (Local_vector v) n_min n_max cell (Some out) net
           = ((net, Some (out @ take (nat n_max) (drop (nat n_min) (lv_data v)))), Inr ())"
  using assms by (simp add: fwrite_def)

text \<open>
  C2 at a vector of ten elements. In the dense build the range \<open>[2, 5)\<close> writes five
  values, the elements 2 to 6, where the claim has three, the elements 2 to 4. The range
  \<open>[0, 10)\<close> of the claim's own scenario fails the assertion \<open>n_max < length\<close> in both
  builds and writes nothing.
\<close>

theorem vector_write_local_count:
  "mpi_vector_write VecGetValues USE_MPI g
      (Local_vector \<lparr>lv_data = [10, 11, 12, 13, 14, 15, 16, 17, 18, 19 :: int], lv_length = 10\<rparr>)
      2 5 cell (Some []) net
     = ((net, Some [12, 13, 14, 15, 16]), Inr ())
   \<and> mpi_vector_write VecGetValues USE_MPI g
      (Local_vector \<lparr>lv_data = [10, 11, 12, 13, 14, 15, 16, 17, 18, 19 :: int], lv_length = 10\<rparr>)
      0 10 cell (Some []) net
     = ((net, Some []), Inl Assertion_failed)
   \<and> mpi_vector_write VecGetValues USE_MPI g
      (Petsc_vector \<lparr>pv_data = vec, pv_length = 10, pv_first = 0, pv_last = 5\<rparr>)
      0 10 cell (Some []) net
     = ((net, Some []), Inl Assertion_failed)"
  by (simp add: fwrite_def)

end
